theory Spec2Isabelle
  imports Main "HOL-Library.AList"
begin

section \<open>Python values and the object store\<close>

text \<open>
  The loader of \<^verbatim>\<open>document_loaders/firecrawl.py\<close> works on Python dictionaries that are
  mutated in place (\<^verbatim>\<open>pop\<close>, item assignment) and shared between the caller and the loader.
  Dictionaries are therefore objects in a store, and a value refers to a dictionary by its
  address. Lists are never mutated by the loader and are kept as values. Floating-point
  numbers are not part of the value universe.

  \<open>VObj\<close> is a plain object with data attributes only (a response record of the remote
  client): it is truthy, it is neither a container nor iterable nor subscriptable, and it has
  no methods.
\<close>

type_synonym addr = nat

datatype pyval =
    VNone
  | VBool bool
  | VInt int
  | VStr string
  | VList "pyval list"
  | VDict addr
  | VObj "(string \<times> pyval) list"

text \<open>
  The content of a dictionary: its items in insertion order. Lookup is \<open>map_of\<close>, item
  assignment is \<open>AList.update\<close> (an existing key keeps its position, a new key goes to the
  end), removal is \<open>AList.delete\<close>.
\<close>

type_synonym pydict = "(string \<times> pyval) list"

record store =
  cells :: "addr \<Rightarrow> pydict"
  lim :: addr

datatype error =
    TypeError | AttributeError | KeyError | ValueError | ValidationError | RemoteError string

text \<open>Sequencing of steps that may raise.\<close>

definition and_then :: "error + 'a \<Rightarrow> ('a \<Rightarrow> error + 'b) \<Rightarrow> error + 'b" where
  "and_then r f = (case r of Inl e \<Rightarrow> Inl e | Inr x \<Rightarrow> f x)"

subsection \<open>Truth value testing\<close>

fun truthy :: "store \<Rightarrow> pyval \<Rightarrow> bool" where
  "truthy s VNone = False"
| "truthy s (VBool b) = b"
| "truthy s (VInt i) = (i \<noteq> 0)"
| "truthy s (VStr t) = (t \<noteq> [])"
| "truthy s (VList xs) = (xs \<noteq> [])"
| "truthy s (VDict a) = (cells s a \<noteq> [])"
| "truthy s (VObj attrs) = True"

subsection \<open>Type tests\<close>

text \<open>\<^verbatim>\<open>isinstance(v, str)\<close> and \<^verbatim>\<open>isinstance(v, dict)\<close>\<close>

fun is_str :: "pyval \<Rightarrow> bool" where
  "is_str (VStr t) = True"
| "is_str v = False"

fun is_dict :: "pyval \<Rightarrow> bool" where
  "is_dict (VDict a) = True"
| "is_dict v = False"

subsection \<open>Dictionary operations\<close>

text \<open>\<^verbatim>\<open>{}\<close>: a new empty dictionary.\<close>

definition dict_new :: "store \<Rightarrow> addr \<times> store" where
  "dict_new s = (lim s, s\<lparr>cells := (cells s)(lim s := []), lim := Suc (lim s)\<rparr>)"

text \<open>\<^verbatim>\<open>d.copy()\<close>: a new dictionary with the same items (a shallow copy).\<close>

definition dict_copy :: "store \<Rightarrow> addr \<Rightarrow> addr \<times> store" where
  "dict_copy s a = (lim s, s\<lparr>cells := (cells s)(lim s := cells s a), lim := Suc (lim s)\<rparr>)"

text \<open>\<^verbatim>\<open>k in d\<close>\<close>

definition dict_contains :: "store \<Rightarrow> addr \<Rightarrow> string \<Rightarrow> bool" where
  "dict_contains s a k = (map_of (cells s a) k \<noteq> None)"

text \<open>\<^verbatim>\<open>d.get(k, dflt)\<close>\<close>

definition dict_get :: "store \<Rightarrow> addr \<Rightarrow> string \<Rightarrow> pyval \<Rightarrow> pyval" where
  "dict_get s a k dflt = (case map_of (cells s a) k of None \<Rightarrow> dflt | Some v \<Rightarrow> v)"

text \<open>\<^verbatim>\<open>d[k] = v\<close>\<close>

definition dict_setitem :: "store \<Rightarrow> addr \<Rightarrow> string \<Rightarrow> pyval \<Rightarrow> store" where
  "dict_setitem s a k v = s\<lparr>cells := (cells s)(a := AList.update k v (cells s a))\<rparr>"

text \<open>Removal of a key, the store effect of \<^verbatim>\<open>d.pop(k)\<close> and \<^verbatim>\<open>d.pop(k, dflt)\<close>.\<close>

definition dict_remove :: "store \<Rightarrow> addr \<Rightarrow> string \<Rightarrow> store" where
  "dict_remove s a k = s\<lparr>cells := (cells s)(a := AList.delete k (cells s a))\<rparr>"

text \<open>\<^verbatim>\<open>d.pop(k, dflt)\<close>: the value and the store without the key.\<close>

definition dict_pop :: "store \<Rightarrow> addr \<Rightarrow> string \<Rightarrow> pyval \<Rightarrow> pyval \<times> store" where
  "dict_pop s a k dflt = (dict_get s a k dflt, dict_remove s a k)"

text \<open>
  The statement pair \<^verbatim>\<open>if old in params: params[new] = params.pop(old)\<close>. The right-hand
  side is evaluated first, so the key is removed before the new one is assigned.
\<close>

definition rename_key :: "store \<Rightarrow> addr \<Rightarrow> string \<Rightarrow> string \<Rightarrow> store" where
  "rename_key s p old new =
     (case map_of (cells s p) old of
        None \<Rightarrow> s
      | Some v \<Rightarrow> dict_setitem (dict_remove s p old) p new v)"

subsection \<open>Operators on arbitrary values\<close>

text \<open>Substring test, the meaning of \<^verbatim>\<open>in\<close> between two strings.\<close>

fun substring :: "string \<Rightarrow> string \<Rightarrow> bool" where
  "substring k [] = (k = [])"
| "substring k (c # cs) = (take (length k) (c # cs) = k \<or> substring k cs)"

text \<open>
  \<^verbatim>\<open>k in x\<close> for a string \<open>k\<close>: key membership on a dictionary, substring on a string,
  element membership on a list, and a TypeError on a value that is not a container.
\<close>

fun py_in :: "store \<Rightarrow> string \<Rightarrow> pyval \<Rightarrow> error + bool" where
  "py_in s k (VDict a) = Inr (dict_contains s a k)"
| "py_in s k (VStr t) = Inr (substring k t)"
| "py_in s k (VList xs) = Inr (VStr k \<in> set xs)"
| "py_in s k VNone = Inl TypeError"
| "py_in s k (VBool b) = Inl TypeError"
| "py_in s k (VInt i) = Inl TypeError"
| "py_in s k (VObj attrs) = Inl TypeError"

text \<open>
  \<^verbatim>\<open>x[k]\<close> for a string \<open>k\<close>: a dictionary is looked up (KeyError when the key is missing);
  strings and lists take integer indices only, the other values are not subscriptable.
\<close>

fun py_getitem :: "store \<Rightarrow> pyval \<Rightarrow> string \<Rightarrow> error + pyval" where
  "py_getitem s (VDict a) k =
     (case map_of (cells s a) k of None \<Rightarrow> Inl KeyError | Some v \<Rightarrow> Inr v)"
| "py_getitem s x k = Inl TypeError"

section \<open>Parameter normalisation (FireCrawlLoader)\<close>

subsection \<open>\<^verbatim>\<open>_prepare_scrape_options\<close>\<close>

text \<open>
  \<^verbatim>\<open>if src in extractor: params[dst] = extractor[src]\<close> (lines 89 to 94, three times).
\<close>

definition copy_option :: "addr \<Rightarrow> pyval \<Rightarrow> string \<Rightarrow> string \<Rightarrow> store \<Rightarrow> error + store" where
  "copy_option p extractor src dst s =
     and_then (py_in s src extractor) (\<lambda>present.
       if present
       then and_then (py_getitem s extractor src) (\<lambda>v. Inr (dict_setitem s p dst v))
       else Inr s)"

text \<open>
  Lines 87 to 94: the extractor options are popped from \<open>params\<close> and their prompt and schema
  copied to the top level, \<^verbatim>\<open>userPrompt\<close> last.
\<close>

definition extractor_options :: "addr \<Rightarrow> store \<Rightarrow> error + store" where
  "extractor_options p s =
     (case map_of (cells s p) ''extractorOptions'' of
        None \<Rightarrow> Inr s
      | Some extractor \<Rightarrow>
          and_then (copy_option p extractor ''extractionPrompt'' ''prompt''
                      (dict_remove s p ''extractorOptions''))
            (\<lambda>s1. and_then (copy_option p extractor ''extractionSchema'' ''schema'' s1)
              (\<lambda>s2. copy_option p extractor ''userPrompt'' ''prompt'' s2)))"

text \<open>
  \<^verbatim>\<open>if params.pop(flag, dflt): formats.append(token)\<close>, on the pair of the store and the
  list \<open>formats\<close> built so far. The popped value is tested after the key is removed.
\<close>

definition flag_step ::
  "addr \<Rightarrow> string \<Rightarrow> bool \<Rightarrow> string \<Rightarrow> store \<times> pyval list \<Rightarrow> store \<times> pyval list" where
  "flag_step p flag dflt token = (\<lambda>(s, formats).
     (case dict_pop s p flag (VBool dflt) of
        (v, s') \<Rightarrow> (s', if truthy s' v then formats @ [VStr token] else formats)))"

text \<open>Lines 97 to 111: the seven flags in the order of the source.\<close>

definition collect_formats :: "addr \<Rightarrow> store \<Rightarrow> store \<times> pyval list" where
  "collect_formats p s =
     flag_step p ''fullPageScreenshot'' False ''screenshot@fullPage''
      (flag_step p ''screenshot'' False ''screenshot''
       (flag_step p ''includeLinks'' False ''links''
        (flag_step p ''includeExtract'' False ''extract''
         (flag_step p ''includeRawHtml'' False ''rawHtml''
          (flag_step p ''includeHtml'' False ''html''
           (flag_step p ''includeMarkdown'' True ''markdown'' (s, [])))))))"

text \<open>Lines 120 to 123.\<close>

definition set_formats :: "addr \<Rightarrow> pyval list \<Rightarrow> store \<Rightarrow> store" where
  "set_formats p formats s =
     (if \<not> dict_contains s p ''formats'' \<and> formats \<noteq> []
      then dict_setitem s p ''formats'' (VList formats)
      else if \<not> dict_contains s p ''formats''
      then dict_setitem s p ''formats'' (VList [VStr ''markdown''])
      else s)"

text \<open>
  The body of \<^verbatim>\<open>_prepare_scrape_options\<close> on a dictionary at address \<open>p\<close>. It returns
  \<open>params\<close> itself, so the result value is \<open>VDict p\<close>.
\<close>

definition scrape_options_dict :: "store \<Rightarrow> addr \<Rightarrow> error + pyval \<times> store" where
  "scrape_options_dict s p =
     and_then (extractor_options p s) (\<lambda>s1.
       case collect_formats p s1 of
         (s2, formats) \<Rightarrow>
           Inr (VDict p,
                set_formats p formats
                  (rename_key (rename_key s2 p ''onlyIncludeTags'' ''includeTags'')
                     p ''removeTags'' ''excludeTags'')))"

text \<open>
  \<^verbatim>\<open>_prepare_scrape_options(params)\<close>. The crawler options pass whatever value is stored
  under \<^verbatim>\<open>pageOptions\<close>. On a value that is not a dictionary the first statements raise:
  a string has no \<^verbatim>\<open>pop\<close> (AttributeError at line 88 or 98), the \<^verbatim>\<open>pop\<close> of a list
  takes one integer (TypeError at line 88 or 98), and the other values are no containers
  (TypeError at line 87).
\<close>

fun prepare_scrape_options :: "store \<Rightarrow> pyval \<Rightarrow> error + pyval \<times> store" where
  "prepare_scrape_options s (VDict p) = scrape_options_dict s p"
| "prepare_scrape_options s (VStr t) = Inl AttributeError"
| "prepare_scrape_options s (VList xs) = Inl TypeError"
| "prepare_scrape_options s VNone = Inl TypeError"
| "prepare_scrape_options s (VBool b) = Inl TypeError"
| "prepare_scrape_options s (VInt i) = Inl TypeError"
| "prepare_scrape_options s (VObj attrs) = Inl TypeError"

subsection \<open>\<^verbatim>\<open>_prepare_crawler_options\<close>\<close>

text \<open>
  Lines 77 to 80: \<^verbatim>\<open>pageOptions\<close> is popped, normalised in place by
  \<^verbatim>\<open>_prepare_scrape_options\<close>, and the returned value stored under \<^verbatim>\<open>scrapeOptions\<close>.
\<close>

definition page_options :: "addr \<Rightarrow> store \<Rightarrow> error + store" where
  "page_options p s =
     (case map_of (cells s p) ''pageOptions'' of
        None \<Rightarrow> Inr s
      | Some po \<Rightarrow>
          and_then (prepare_scrape_options (dict_remove s p ''pageOptions'') po)
            (\<lambda>(r, s'). Inr (dict_setitem s' p ''scrapeOptions'' r)))"

definition prepare_crawler_options :: "store \<Rightarrow> addr \<Rightarrow> error + pyval \<times> store" where
  "prepare_crawler_options s p =
     and_then
       (page_options p
         (rename_key
           (rename_key
             (rename_key
               (rename_key s p ''includes'' ''includePaths'')
               p ''excludes'' ''excludePaths'')
             p ''allowBackwardCrawling'' ''allowBackwardLinks'')
           p ''allowExternalContentLinks'' ''allowExternalLinks''))
       (\<lambda>s'. Inr (VDict p, s'))"

section \<open>Loading documents (FireCrawlLoader.lazy_load)\<close>

subsection \<open>The remote client\<close>

text \<open>
  The calls of the Firecrawl client with their arguments: the URL (for \<^verbatim>\<open>extract\<close> the
  list of URLs) and the keyword arguments.
\<close>

datatype remote_call =
    ScrapeUrl string pydict
  | CrawlUrl string pydict
  | MapUrl string pydict
  | Extract "string list" pydict
  | Search pydict

text \<open>
  The state of a loader after \<^verbatim>\<open>__init__\<close>. The client \<open>firecrawl\<close> is a collaborator
  outside the repository: any function from a call and the store to an error or a result
  with the store it leaves. \<open>params\<close> is the address of the dictionary the loader holds.
\<close>

record loader =
  firecrawl :: "remote_call \<Rightarrow> store \<Rightarrow> error + pyval \<times> store"
  url :: string
  mode :: string
  params :: addr

record document =
  page_content :: pyval
  metadata :: pyval

text \<open>
  A call \<^verbatim>\<open>f(k1=v1, **d)\<close>: the keyword arguments are the explicit ones followed by the
  items of \<open>d\<close>. A key of \<open>d\<close> that is also given explicitly is a TypeError (multiple values
  for a keyword argument), raised while the arguments are built: the function is not entered.
\<close>

definition call_kwargs :: "pydict \<Rightarrow> pydict \<Rightarrow> error + pydict" where
  "call_kwargs explicit expanded =
     (if \<exists>k \<in> set (map fst expanded). k \<in> set (map fst explicit)
      then Inl TypeError
      else Inr (explicit @ expanded))"

text \<open>\<^verbatim>\<open>**x\<close>: the items of a dictionary; any other value is not a mapping.\<close>

fun expand :: "store \<Rightarrow> pyval \<Rightarrow> error + pydict" where
  "expand s (VDict a) = Inr (cells s a)"
| "expand s x = Inl TypeError"

text \<open>\<^verbatim>\<open>x.get(k, dflt)\<close>: only a dictionary has the method.\<close>

fun py_get :: "store \<Rightarrow> pyval \<Rightarrow> string \<Rightarrow> pyval \<Rightarrow> error + pyval" where
  "py_get s (VDict a) k dflt = Inr (dict_get s a k dflt)"
| "py_get s x k dflt = Inl AttributeError"

text \<open>
  \<^verbatim>\<open>for doc in x\<close>: the elements of a list, the characters of a string, the keys of a
  dictionary; the other values are not iterable.
\<close>

fun py_iter :: "store \<Rightarrow> pyval \<Rightarrow> error + pyval list" where
  "py_iter s (VList xs) = Inr xs"
| "py_iter s (VStr t) = Inr (map (\<lambda>c. VStr [c]) t)"
| "py_iter s (VDict a) = Inr (map (\<lambda>kv. VStr (fst kv)) (cells s a))"
| "py_iter s VNone = Inl TypeError"
| "py_iter s (VBool b) = Inl TypeError"
| "py_iter s (VInt i) = Inl TypeError"
| "py_iter s (VObj attrs) = Inl TypeError"

text \<open>\<^verbatim>\<open>getattr(x, name, dflt)\<close>: only objects carry the attributes read by the loader.\<close>

fun getattr :: "pyval \<Rightarrow> string \<Rightarrow> pyval \<Rightarrow> pyval" where
  "getattr (VObj attrs) name dflt = (case map_of attrs name of None \<Rightarrow> dflt | Some v \<Rightarrow> v)"
| "getattr x name dflt = dflt"

text \<open>\<^verbatim>\<open>a or b\<close>\<close>

definition py_or :: "store \<Rightarrow> pyval \<Rightarrow> pyval \<Rightarrow> pyval" where
  "py_or s a b = (if truthy s a then a else b)"

subsection \<open>The remote call of each mode\<close>

text \<open>
  A remote call: the client's answer, and the call as the only entry of the log.
\<close>

definition invoke ::
  "loader \<Rightarrow> remote_call \<Rightarrow> store \<Rightarrow> (error + pyval \<times> store) \<times> remote_call list" where
  "invoke self c s = (firecrawl self c s, [c])"

text \<open>
  Lines 177 to 207: the value of \<^verbatim>\<open>firecrawl_docs\<close>, with the log of the remote calls made.
  An error raised before the call leaves the log empty. \<open>str_of\<close> stands for the builtin
  \<^verbatim>\<open>str\<close> on the result of \<^verbatim>\<open>extract\<close>.
\<close>

definition fetch ::
  "(pyval \<Rightarrow> string) \<Rightarrow> loader \<Rightarrow> store \<Rightarrow> (error + pyval \<times> store) \<times> remote_call list" where
  "fetch str_of self s =
     (if mode self = ''scrape'' then
        (case dict_copy s (params self) of
           (c, s1) \<Rightarrow>
             (case and_then (prepare_scrape_options s1 (VDict c))
                     (\<lambda>(opts, s2). and_then (expand s2 opts) (\<lambda>kw. Inr (kw, s2))) of
                Inl e \<Rightarrow> (Inl e, [])
              | Inr (kw, s2) \<Rightarrow>
                  (case invoke self (ScrapeUrl (url self) kw) s2 of
                     (r, calls) \<Rightarrow> (and_then r (\<lambda>(doc, s3). Inr (VList [doc], s3)), calls))))
      else if mode self = ''crawl'' then
        (if url self = [] then (Inl ValueError, [])
         else
           (case dict_copy s (params self) of
              (c, s1) \<Rightarrow>
                (case and_then (prepare_crawler_options s1 c)
                        (\<lambda>(opts, s2). and_then (expand s2 opts) (\<lambda>kw. Inr (kw, s2))) of
                   Inl e \<Rightarrow> (Inl e, [])
                 | Inr (kw, s2) \<Rightarrow>
                     (case invoke self (CrawlUrl (url self) kw) s2 of
                        (r, calls) \<Rightarrow>
                          (and_then r (\<lambda>(crawl_response, s3).
                             and_then (py_get s3 crawl_response ''data'' (VList []))
                               (\<lambda>docs. Inr (docs, s3))), calls)))))
      else if mode self = ''map'' then
        (if url self = [] then (Inl ValueError, [])
         else invoke self (MapUrl (url self) (cells s (params self))) s)
      else if mode self = ''extract'' then
        (if url self = [] then (Inl ValueError, [])
         else
           (case invoke self (Extract [url self] (cells s (params self))) s of
              (r, calls) \<Rightarrow> (and_then r (\<lambda>(x, s1). Inr (VList [VStr (str_of x)], s1)), calls)))
      else if mode self = ''search'' then
        (case call_kwargs [(''query'', dict_get s (params self) ''query'' VNone)]
                (cells s (params self)) of
           Inl e \<Rightarrow> (Inl e, [])
         | Inr kw \<Rightarrow> invoke self (Search kw) s)
      else (Inl ValueError, []))"

subsection \<open>The result projector\<close>

text \<open>
  \<^verbatim>\<open>Document(page_content=..., metadata=...)\<close>. The class is the pydantic model of
  \<^verbatim>\<open>langchain_core\<close>, which validates its fields: the content must be a string and the
  metadata a dictionary, and any other value is a ValidationError.
\<close>

definition Document :: "pyval \<Rightarrow> pyval \<Rightarrow> error + document" where
  "Document content md =
     (if is_str content \<and> is_dict md then Inr \<lparr>page_content = content, metadata = md\<rparr>
      else Inl ValidationError)"

text \<open>
  Lines 210 to 227, the body of the loop for one element of \<^verbatim>\<open>firecrawl_docs\<close>: the
  document it yields, if any, and the store (the \<^verbatim>\<open>{}\<close> displays create dictionaries), or
  the error of the document's validation. The default \<^verbatim>\<open>{}\<close> of \<^verbatim>\<open>getattr\<close> is built
  before the attribute is read; the second \<^verbatim>\<open>{}\<close> only when the first operand of
  \<^verbatim>\<open>or\<close> is falsy. An element without content is passed over before any document is
  built.
\<close>

definition project_doc ::
  "string \<Rightarrow> store \<Rightarrow> pyval \<Rightarrow> error + document option \<times> store" where
  "project_doc m s doc =
     (case
        (if m = ''map'' \<or> m = ''extract'' then
           (case dict_new s of (d, s1) \<Rightarrow> (doc, VDict d, s1))
         else
           (let content =
                  py_or s (getattr doc ''markdown'' VNone)
                    (py_or s (getattr doc ''html'' VNone)
                      (py_or s (getattr doc ''rawHtml'' VNone) (VStr [])))
            in case dict_new s of
                 (d1, s1) \<Rightarrow>
                   (let md = getattr doc ''metadata'' (VDict d1)
                    in if truthy s1 md then (content, md, s1)
                       else (case dict_new s1 of (d2, s2) \<Rightarrow> (content, VDict d2, s2)))))
      of (content, md, s') \<Rightarrow>
        if \<not> truthy s' content then Inr (None, s')
        else (case Document content md of
                Inl e \<Rightarrow> Inl e
              | Inr d \<Rightarrow> Inr (Some d, s')))"

text \<open>
  The loop over \<^verbatim>\<open>firecrawl_docs\<close>: the documents yielded, in order, or the error that
  ends the loop.
\<close>

fun project :: "string \<Rightarrow> store \<Rightarrow> pyval list \<Rightarrow> error + document list \<times> store" where
  "project m s [] = Inr ([], s)"
| "project m s (doc # docs) =
     (case project_doc m s doc of
        Inl e \<Rightarrow> Inl e
      | Inr (r, s1) \<Rightarrow>
          (case project m s1 docs of
             Inl e \<Rightarrow> Inl e
           | Inr (rs, s2) \<Rightarrow> Inr ((case r of None \<Rightarrow> [] | Some d \<Rightarrow> [d]) @ rs, s2)))"

text \<open>
  \<^verbatim>\<open>lazy_load\<close>, consumed to its end as \<^verbatim>\<open>list(loader.lazy_load())\<close> consumes it: the
  documents yielded and the final store, or the error raised, and the log of remote calls.
  An error raised inside the loop reaches that consumer in place of the documents yielded
  before it.
\<close>

definition lazy_load ::
  "(pyval \<Rightarrow> string) \<Rightarrow> loader \<Rightarrow> store \<Rightarrow> (error + document list \<times> store) \<times> remote_call list"
  where
  "lazy_load str_of self s =
     (case fetch str_of self s of
        (r, calls) \<Rightarrow>
          (and_then r (\<lambda>(firecrawl_docs, s1).
             and_then (py_iter s1 firecrawl_docs) (\<lambda>docs. project (mode self) s1 docs)),
           calls))"

section \<open>The rules of the specification\<close>

text \<open>
  The definitions of this section are written from the words of the specification, to be
  compared with the functions of the loader above.
\<close>

text \<open>The first of two optional values that is present.\<close>

definition first_of :: "'a option \<Rightarrow> 'a option \<Rightarrow> 'a option" where
  "first_of x y = (case x of Some v \<Rightarrow> Some v | None \<Rightarrow> y)"

text \<open>The rename table: the legacy keys of the crawler level, and those of the tag options.\<close>

definition crawl_renames :: "(string \<times> string) list" where
  "crawl_renames =
     [(''includes'', ''includePaths''),
      (''excludes'', ''excludePaths''),
      (''allowBackwardCrawling'', ''allowBackwardLinks''),
      (''allowExternalContentLinks'', ''allowExternalLinks'')]"

definition tag_renames :: "(string \<times> string) list" where
  "tag_renames =
     [(''onlyIncludeTags'', ''includeTags''),
      (''removeTags'', ''excludeTags'')]"

definition legacy_keys :: "string list" where
  "legacy_keys = map fst (crawl_renames @ tag_renames)"

text \<open>
  The format-derivation rule: the flags in their fixed order, each with the value it takes
  when absent and its canonical token.
\<close>

definition flag_table :: "(string \<times> bool \<times> string) list" where
  "flag_table =
     [(''includeMarkdown'', True, ''markdown''),
      (''includeHtml'', False, ''html''),
      (''includeRawHtml'', False, ''rawHtml''),
      (''includeExtract'', False, ''extract''),
      (''includeLinks'', False, ''links''),
      (''screenshot'', False, ''screenshot''),
      (''fullPageScreenshot'', False, ''screenshot@fullPage'')]"

definition flag_names :: "string list" where
  "flag_names = map fst flag_table"

text \<open>The Format Selector Set of a map \<open>d\<close>: the tokens of the flags that are true, in order.\<close>

definition derived_formats :: "store \<Rightarrow> pydict \<Rightarrow> pyval list" where
  "derived_formats s d =
     map (\<lambda>(flag, dflt, token). VStr token)
       (filter (\<lambda>(flag, dflt, token).
          truthy s (case map_of d flag of None \<Rightarrow> VBool dflt | Some v \<Rightarrow> v)) flag_table)"

text \<open>The item \<open>k\<close> of the map stored under \<^verbatim>\<open>extractorOptions\<close>, when that is a map.\<close>

definition extractor_item :: "store \<Rightarrow> addr \<Rightarrow> string \<Rightarrow> pyval option" where
  "extractor_item s p k =
     (case map_of (cells s p) ''extractorOptions'' of
        Some (VDict e) \<Rightarrow> map_of (cells s e) k
      | _ \<Rightarrow> None)"

text \<open>
  The item \<open>k\<close> of a scrape-style map after normalisation, by the rules of the specification:
  consumed keys are gone, the tag keys are renamed, the extraction options give
  \<^verbatim>\<open>prompt\<close> (\<^verbatim>\<open>userPrompt\<close> before \<^verbatim>\<open>extractionPrompt\<close>) and \<^verbatim>\<open>schema\<close>, an
  explicit \<^verbatim>\<open>formats\<close> is kept and a missing one is set from the derived formats \<open>fs\<close>, and
  every other key passes through.
\<close>

definition scrape_item :: "pyval list \<Rightarrow> store \<Rightarrow> addr \<Rightarrow> string \<Rightarrow> pyval option" where
  "scrape_item fs s p k =
     (if k \<in> set flag_names \<or> k = ''extractorOptions'' \<or> k = ''onlyIncludeTags''
         \<or> k = ''removeTags''
      then None
      else if k = ''includeTags''
      then first_of (map_of (cells s p) ''onlyIncludeTags'') (map_of (cells s p) ''includeTags'')
      else if k = ''excludeTags''
      then first_of (map_of (cells s p) ''removeTags'') (map_of (cells s p) ''excludeTags'')
      else if k = ''formats''
      then first_of (map_of (cells s p) ''formats'')
             (Some (VList (if fs = [] then [VStr ''markdown''] else fs)))
      else if k = ''prompt''
      then first_of (extractor_item s p ''userPrompt'')
             (first_of (extractor_item s p ''extractionPrompt'') (map_of (cells s p) ''prompt''))
      else if k = ''schema''
      then first_of (extractor_item s p ''extractionSchema'') (map_of (cells s p) ''schema'')
      else map_of (cells s p) k)"

text \<open>
  The content of a content-bearing record: the first of its content fields, in priority
  order, that is present and not empty.
\<close>

definition content_fields :: "string list" where
  "content_fields = [''markdown'', ''html'', ''rawHtml'']"

definition first_content :: "store \<Rightarrow> pyval \<Rightarrow> pyval option" where
  "first_content s doc = find (truthy s) (map (\<lambda>name. getattr doc name VNone) content_fields)"

text \<open>
  A response record as the specification types it: each content field is absent, null or a
  string, and the attributes field is absent, null or a mapping that exists in the store.
\<close>

definition typed_record :: "store \<Rightarrow> pyval \<Rightarrow> bool" where
  "typed_record s doc =
     ((\<forall>name \<in> set content_fields.
         case getattr doc name VNone of VNone \<Rightarrow> True | VStr t \<Rightarrow> True | _ \<Rightarrow> False) \<and>
      (case getattr doc ''metadata'' VNone of
         VNone \<Rightarrow> True | VDict a \<Rightarrow> a < lim s | _ \<Rightarrow> False))"

text \<open>
  The attributes of a record: the items of its attributes field, and the empty mapping when
  the field is absent or null.
\<close>

definition attributes :: "store \<Rightarrow> pyval \<Rightarrow> pydict" where
  "attributes s doc = (case getattr doc ''metadata'' VNone of VDict a \<Rightarrow> cells s a | _ \<Rightarrow> [])"

text \<open>
  The Projected Unit of a record: its content with its attributes, and none for a record
  without content.
\<close>

definition projected_unit :: "store \<Rightarrow> pyval \<Rightarrow> (pyval \<times> pydict) option" where
  "projected_unit s doc = map_option (\<lambda>c. (c, attributes s doc)) (first_content s doc)"

text \<open>The pair a yielded document carries: its content, and the items of its metadata.\<close>

definition unit_of :: "store \<Rightarrow> document \<Rightarrow> pyval \<times> pydict" where
  "unit_of s d = (page_content d, (case metadata d of VDict a \<Rightarrow> cells s a | _ \<Rightarrow> []))"

section \<open>Concrete stores and clients\<close>

text \<open>The store that holds the given dictionaries at the addresses 0, 1, and so on.\<close>

definition store_of :: "pydict list \<Rightarrow> store" where
  "store_of ds = \<lparr>cells = (\<lambda>a. if a < length ds then ds ! a else []), lim = length ds\<rparr>"

text \<open>The state of the store after a step, at one address (empty if the step raised).\<close>

definition cell_after :: "error + 'a \<times> store \<Rightarrow> addr \<Rightarrow> pydict" where
  "cell_after r a = (case r of Inl e \<Rightarrow> [] | Inr (x, s) \<Rightarrow> cells s a)"

text \<open>A client that answers every call with a new empty mapping.\<close>

definition empty_client :: "remote_call \<Rightarrow> store \<Rightarrow> error + pyval \<times> store" where
  "empty_client c s = (case dict_new s of (a, s') \<Rightarrow> Inr (VDict a, s'))"

text \<open>Maps used as concrete inputs.\<close>

definition html_only :: store where
  "html_only = store_of [[(''includeHtml'', VBool True), (''includeMarkdown'', VBool False)]]"

definition both_prompts :: store where
  "both_prompts =
     store_of
       [[(''extractorOptions'', VDict 1)],
        [(''extractionPrompt'', VStr ''old prompt''),
         (''extractionSchema'', VStr ''S''),
         (''userPrompt'', VStr ''new prompt'')]]"

definition html_record :: pyval where
  "html_record = VObj [(''markdown'', VStr []), (''html'', VStr ''<p>hi</p>''), (''metadata'', VNone)]"

definition empty_record :: pyval where
  "empty_record = VObj [(''markdown'', VStr []), (''html'', VNone)]"

definition titled_record :: pyval where
  "titled_record =
     VObj [(''markdown'', VStr ''# Title''), (''html'', VStr ''<h1>Title</h1>''),
           (''metadata'', VDict 1)]"

definition number_record :: pyval where
  "number_record = VObj [(''markdown'', VInt 5)]"

definition records_store :: store where
  "records_store = store_of [[], [(''title'', VStr ''Home'')]]"

definition records_client :: "remote_call \<Rightarrow> store \<Rightarrow> error + pyval \<times> store" where
  "records_client c s = Inr (VList [html_record, empty_record, titled_record], s)"

definition records_loader :: loader where
  "records_loader =
     \<lparr>firecrawl = records_client, url = ''firecrawl'', mode = ''search'', params = 0\<rparr>"

definition no_text :: "pyval \<Rightarrow> string" where
  "no_text x = []"

definition search_loader :: loader where
  "search_loader = \<lparr>firecrawl = empty_client, url = ''firecrawl'', mode = ''search'', params = 0\<rparr>"

definition query_store :: store where
  "query_store = store_of [[(''query'', VStr ''firecrawl''), (''limit'', VInt 5)]]"

definition crawl_loader :: loader where
  "crawl_loader =
     \<lparr>firecrawl = empty_client, url = ''https://example.com'', mode = ''crawl'', params = 0\<rparr>"

definition nested_options :: store where
  "nested_options = store_of [[(''pageOptions'', VDict 1)], [(''includeHtml'', VBool True)]]"

definition six_legacy :: store where
  "six_legacy =
     store_of
       [[(''includes'', VList [VStr ''/blog'']),
         (''excludes'', VList [VStr ''/admin'']),
         (''allowBackwardCrawling'', VBool True),
         (''allowExternalContentLinks'', VBool False),
         (''onlyIncludeTags'', VList [VStr ''article'']),
         (''removeTags'', VList [VStr ''nav''])]]"

section \<open>The image-generation wrapper (DallEAPIWrapper)\<close>

text \<open>
  The module \<^verbatim>\<open>langchain_community/utilities/dalle_image_generator.py\<close> is not among the
  sources; its unit tests are. The wrapper is written here from the specification (section
  4.3 and the output contract of section 6), with the names the tests use.
\<close>

text \<open>
  Modelled from the spec: the state of a constructed wrapper, which is the class
  \<^verbatim>\<open>DallEAPIWrapper\<close> missing from the sources. The fields are the named generation
  parameters (\<^verbatim>\<open>model\<close>, \<^verbatim>\<open>n\<close>, \<^verbatim>\<open>size\<close>, \<^verbatim>\<open>quality\<close>), the delimiter and the
  Extension Map. The fields \<^verbatim>\<open>n\<close> and \<^verbatim>\<open>size\<close> are named \<open>num_images\<close> and
  \<open>image_size\<close>.
\<close>

record dalle_wrapper =
  model_name :: pyval
  num_images :: pyval
  image_size :: pyval
  quality :: pyval
  separator :: pyval
  model_kwargs :: pydict

text \<open>
  Modelled from the spec: the explicit parameter list of the builder, which the missing
  class declares. These are the keywords the specification and the tests name.
\<close>

definition recognized :: "string list" where
  "recognized = [''model'', ''n'', ''size'', ''quality'', ''separator'', ''api_key'']"

text \<open>
  Modelled from the spec: the constructor of the missing class. Missing credentials (no
  \<^verbatim>\<open>api_key\<close> keyword and none in the environment) fail the construction; a keyword
  that is not recognized goes to the Extension Map instead of failing; the delimiter is a
  comma unless configured. The specification gives no default for the other parameters:
  \<open>dflt\<close> supplies them.
\<close>

definition DallEAPIWrapper ::
  "(string \<Rightarrow> pyval) \<Rightarrow> string option \<Rightarrow> pydict \<Rightarrow> error + dalle_wrapper" where
  "DallEAPIWrapper dflt env_api_key kwargs =
     (if map_of kwargs ''api_key'' = None \<and> env_api_key = None then Inl ValueError
      else Inr
        \<lparr>model_name = (case map_of kwargs ''model'' of None \<Rightarrow> dflt ''model'' | Some v \<Rightarrow> v),
         num_images = (case map_of kwargs ''n'' of None \<Rightarrow> dflt ''n'' | Some v \<Rightarrow> v),
         image_size = (case map_of kwargs ''size'' of None \<Rightarrow> dflt ''size'' | Some v \<Rightarrow> v),
         quality = (case map_of kwargs ''quality'' of None \<Rightarrow> dflt ''quality'' | Some v \<Rightarrow> v),
         separator = (case map_of kwargs ''separator'' of None \<Rightarrow> VStr '','' | Some v \<Rightarrow> v),
         model_kwargs = filter (\<lambda>kv. fst kv \<notin> set recognized) kwargs\<rparr>)"

text \<open>
  Modelled from the spec: the argument set the missing method \<^verbatim>\<open>run\<close> passes to the
  remote \<^verbatim>\<open>generate\<close>. The quality is included exactly when the model identifier is the
  newer tier, \<^verbatim>\<open>dall-e-3\<close>; the Extension Map is merged in.
\<close>

definition request_args :: "dalle_wrapper \<Rightarrow> string \<Rightarrow> pydict" where
  "request_args w prompt =
     [(''prompt'', VStr prompt), (''model'', model_name w), (''n'', num_images w),
      (''size'', image_size w)]
     @ (if model_name w = VStr ''dall-e-3'' then [(''quality'', quality w)] else [])
     @ model_kwargs w"

text \<open>
  Modelled from the spec: the delimiter-joined string of the missing method \<^verbatim>\<open>run\<close>,
  the URLs in the order given with the delimiter between neighbours.
\<close>

fun join :: "string \<Rightarrow> string list \<Rightarrow> string" where
  "join sep [] = []"
| "join sep [x] = x"
| "join sep (x # y # ys) = x @ sep @ join sep (y # ys)"

text \<open>
  Modelled from the spec: the missing method \<^verbatim>\<open>run\<close>. The remote collaborator
  \<open>generate\<close> answers with the image URLs in its order, or fails, and a failure is passed on
  unchanged. The result is the joined URLs, or the marker when there is none. A delimiter
  that is not a string cannot join.
\<close>

definition run :: "(pydict \<Rightarrow> error + string list) \<Rightarrow> dalle_wrapper \<Rightarrow> string \<Rightarrow> error + string"
  where
  "run generate w prompt =
     and_then (generate (request_args w prompt)) (\<lambda>urls.
       case separator w of
         VStr sep \<Rightarrow> Inr (if urls = [] then ''No image was generated'' else join sep urls)
       | _ \<Rightarrow> Inl TypeError)"

subsection \<open>The fake client of the unit tests\<close>

text \<open>Decimal digits of a number, as \<^verbatim>\<open>str\<close> prints them.\<close>

fun decimal :: "nat \<Rightarrow> string" where
  "decimal k =
     (if k < 10 then [''0123456789'' ! k]
      else decimal (k div 10) @ [''0123456789'' ! (k mod 10)])"

text \<open>
  \<^verbatim>\<open>FakeImages.generate\<close> of \<^verbatim>\<open>test_dalle_image_generator.py\<close>: with a keyword
  \<^verbatim>\<open>n\<close> above one it answers \<^verbatim>\<open>image_0.png\<close> to \<^verbatim>\<open>image_(n-1).png\<close>, and one
  fixed URL otherwise. A boolean \<^verbatim>\<open>n\<close> compares as an integer and is never above one;
  a value that does not compare with an integer is a TypeError.
\<close>

definition fake_generate :: "pydict \<Rightarrow> error + string list" where
  "fake_generate kwargs =
     (case map_of kwargs ''n'' of
        None \<Rightarrow> Inr [''https://example.com/image.png'']
      | Some (VInt k) \<Rightarrow>
          if k > 1
          then Inr (map (\<lambda>i. ''https://example.com/image_'' @ decimal i @ ''.png'') [0..<nat k])
          else Inr [''https://example.com/image.png'']
      | Some (VBool b) \<Rightarrow> Inr [''https://example.com/image.png'']
      | Some v \<Rightarrow> Inl TypeError)"

text \<open>The parameters the tests leave to their defaults.\<close>

definition test_defaults :: "string \<Rightarrow> pyval" where
  "test_defaults name =
     (if name = ''model'' then VStr ''dall-e-2''
      else if name = ''n'' then VInt 1
      else if name = ''size'' then VStr ''1024x1024''
      else VStr ''standard'')"

section \<open>Properties of the dictionary operations and of the normalisers\<close>

lemma cells_dict_setitem:
  "cells (dict_setitem s a k v) b = (if b = a then AList.update k v (cells s a) else cells s b)"
  by (simp add: dict_setitem_def)

lemma cells_dict_remove:
  "cells (dict_remove s a k) b = (if b = a then AList.delete k (cells s a) else cells s b)"
  by (simp add: dict_remove_def)

lemma lim_dict_setitem: "lim (dict_setitem s a k v) = lim s"
  by (simp add: dict_setitem_def)

lemma lim_dict_remove: "lim (dict_remove s a k) = lim s"
  by (simp add: dict_remove_def)

lemma item_dict_setitem:
  "map_of (cells (dict_setitem s a k v) a) k' = (if k' = k then Some v else map_of (cells s a) k')"
  by (simp add: cells_dict_setitem update_conv')

lemma item_dict_remove:
  "map_of (cells (dict_remove s a k) a) k' = (if k' = k then None else map_of (cells s a) k')"
  by (simp add: cells_dict_remove delete_conv')

lemma cells_rename_key_other: "a \<noteq> p \<Longrightarrow> cells (rename_key s p old new) a = cells s a"
  by (simp add: rename_key_def cells_dict_setitem cells_dict_remove split: option.splits)

lemma lim_rename_key: "lim (rename_key s p old new) = lim s"
  by (simp add: rename_key_def lim_dict_setitem lim_dict_remove split: option.splits)

lemma item_rename_key:
  "old \<noteq> new \<Longrightarrow> map_of (cells (rename_key s p old new) p) k =
     (if k = old then None
      else if k = new then (case map_of (cells s p) old of None \<Rightarrow> map_of (cells s p) new | Some v \<Rightarrow> Some v)
      else map_of (cells s p) k)"
  by (simp add: rename_key_def item_dict_setitem item_dict_remove split: option.splits)

lemma flag_step_eq:
  "flag_step p flag dflt token (s, fs) =
     (dict_remove s p flag,
      fs @ (if truthy (dict_remove s p flag) (dict_get s p flag (VBool dflt)) then [VStr token] else []))"
  by (simp add: flag_step_def dict_pop_def)

lemma truthy_dict_remove:
  "v \<noteq> VDict p \<Longrightarrow> truthy (dict_remove s p k) v = truthy s v"
  by (cases v) (simp_all add: cells_dict_remove)

lemma truthy_dict_setitem:
  "v \<noteq> VDict p \<Longrightarrow> truthy (dict_setitem s p k x) v = truthy s v"
  by (cases v) (simp_all add: cells_dict_setitem)

lemma flag_value_not_self:
  "map_of d flag \<noteq> Some (VDict p) \<Longrightarrow>
   (case map_of d flag of None \<Rightarrow> VBool dflt | Some v \<Rightarrow> v) \<noteq> VDict p"
  by (auto split: option.splits)

lemma collect_formats_snd:
  assumes "\<forall>flag \<in> set flag_names. map_of (cells s p) flag \<noteq> Some (VDict p)"
  shows "snd (collect_formats p s) = derived_formats s (cells s p)"
proof -
  have ns: "map_of (cells s p) ''includeMarkdown'' \<noteq> Some (VDict p)"
    "map_of (cells s p) ''includeHtml'' \<noteq> Some (VDict p)"
    "map_of (cells s p) ''includeRawHtml'' \<noteq> Some (VDict p)"
    "map_of (cells s p) ''includeExtract'' \<noteq> Some (VDict p)"
    "map_of (cells s p) ''includeLinks'' \<noteq> Some (VDict p)"
    "map_of (cells s p) ''screenshot'' \<noteq> Some (VDict p)"
    "map_of (cells s p) ''fullPageScreenshot'' \<noteq> Some (VDict p)"
    using assms by (simp_all add: flag_names_def flag_table_def)
  show ?thesis
    by (simp add: collect_formats_def flag_step_eq dict_get_def item_dict_remove
        truthy_dict_remove flag_value_not_self [OF ns(1)] flag_value_not_self [OF ns(2)]
        flag_value_not_self [OF ns(3)] flag_value_not_self [OF ns(4)]
        flag_value_not_self [OF ns(5)] flag_value_not_self [OF ns(6)]
        flag_value_not_self [OF ns(7)] derived_formats_def flag_table_def)
qed

lemma collect_formats_fst_other:
  "a \<noteq> p \<Longrightarrow> cells (fst (collect_formats p s)) a = cells s a"
  by (simp add: collect_formats_def flag_step_eq cells_dict_remove)

lemma collect_formats_fst_item:
  "map_of (cells (fst (collect_formats p s)) p) k =
     (if k \<in> set flag_names then None else map_of (cells s p) k)"
  by (simp add: collect_formats_def flag_step_eq item_dict_remove flag_names_def flag_table_def)

lemma collect_formats_lim: "lim (fst (collect_formats p s)) = lim s"
  by (simp add: collect_formats_def flag_step_eq lim_dict_remove)

lemma copy_option_dict:
  "copy_option p (VDict e) src dst s =
     Inr (case map_of (cells s e) src of None \<Rightarrow> s | Some v \<Rightarrow> dict_setitem s p dst v)"
  by (simp add: copy_option_def and_then_def dict_contains_def split: option.splits)

lemma extractor_options_absent:
  "map_of (cells s p) ''extractorOptions'' = None \<Longrightarrow> extractor_options p s = Inr s"
  by (simp add: extractor_options_def)

lemma copy_option_dict_item:
  "\<exists>t'. copy_option p (VDict e) src dst t = Inr t' \<and> lim t' = lim t \<and>
      (\<forall>a. a \<noteq> p \<longrightarrow> cells t' a = cells t a) \<and>
      (\<forall>k. map_of (cells t' p) k =
         (case map_of (cells t e) src of
            None \<Rightarrow> map_of (cells t p) k
          | Some v \<Rightarrow> if k = dst then Some v else map_of (cells t p) k))"
  by (simp add: copy_option_dict update_conv' cells_dict_setitem lim_dict_setitem
      split: option.splits)

lemma extractor_options_dict:
  assumes ex: "map_of (cells s p) ''extractorOptions'' = Some (VDict e)"
  shows "\<exists>s1. extractor_options p s = Inr s1 \<and> lim s1 = lim s \<and>
           (\<forall>a. a \<noteq> p \<longrightarrow> cells s1 a = cells s a) \<and>
           (\<forall>k. map_of (cells s1 p) k =
              (if k = ''extractorOptions'' then None
               else if k = ''prompt'' then
                 (case map_of (cells s e) ''userPrompt'' of
                    Some u \<Rightarrow> Some u
                  | None \<Rightarrow>
                      (case map_of (cells s e) ''extractionPrompt'' of
                         Some a \<Rightarrow> Some a
                       | None \<Rightarrow> map_of (cells s p) ''prompt''))
               else if k = ''schema'' then
                 (case map_of (cells s e) ''extractionSchema'' of
                    Some v \<Rightarrow> Some v
                  | None \<Rightarrow> map_of (cells s p) ''schema'')
               else map_of (cells s p) k))"
proof -
  define s0 where "s0 = dict_remove s p ''extractorOptions''"
  have l0: "lim s0 = lim s" and c0: "\<And>a. a \<noteq> p \<Longrightarrow> cells s0 a = cells s a"
    and i0: "\<And>k. map_of (cells s0 p) k =
               (if k = ''extractorOptions'' then None else map_of (cells s p) k)"
    by (simp_all add: s0_def lim_dict_remove cells_dict_remove delete_conv')
  have e0: "map_of (cells s0 e) ''extractionPrompt'' = map_of (cells s e) ''extractionPrompt''"
    by (cases "e = p") (simp_all add: i0 c0)
  obtain s1 where r1: "copy_option p (VDict e) ''extractionPrompt'' ''prompt'' s0 = Inr s1"
    and l1: "lim s1 = lim s0" and c1: "\<And>a. a \<noteq> p \<Longrightarrow> cells s1 a = cells s0 a"
    and i1: "\<And>k. map_of (cells s1 p) k =
               (case map_of (cells s0 e) ''extractionPrompt'' of
                  None \<Rightarrow> map_of (cells s0 p) k
                | Some v \<Rightarrow> if k = ''prompt'' then Some v else map_of (cells s0 p) k)"
    using copy_option_dict_item [of p e "''extractionPrompt''" "''prompt''" s0] by blast
  have e1: "map_of (cells s1 e) ''extractionSchema'' = map_of (cells s e) ''extractionSchema''"
    by (cases "e = p") (simp_all add: i1 i0 c1 c0 split: option.splits)
  obtain s2 where r2: "copy_option p (VDict e) ''extractionSchema'' ''schema'' s1 = Inr s2"
    and l2: "lim s2 = lim s1" and c2: "\<And>a. a \<noteq> p \<Longrightarrow> cells s2 a = cells s1 a"
    and i2: "\<And>k. map_of (cells s2 p) k =
               (case map_of (cells s1 e) ''extractionSchema'' of
                  None \<Rightarrow> map_of (cells s1 p) k
                | Some v \<Rightarrow> if k = ''schema'' then Some v else map_of (cells s1 p) k)"
    using copy_option_dict_item [of p e "''extractionSchema''" "''schema''" s1] by blast
  have e2: "map_of (cells s2 e) ''userPrompt'' = map_of (cells s e) ''userPrompt''"
    by (cases "e = p") (simp_all add: i2 i1 i0 c2 c1 c0 split: option.splits)
  obtain s3 where r3: "copy_option p (VDict e) ''userPrompt'' ''prompt'' s2 = Inr s3"
    and l3: "lim s3 = lim s2" and c3: "\<And>a. a \<noteq> p \<Longrightarrow> cells s3 a = cells s2 a"
    and i3: "\<And>k. map_of (cells s3 p) k =
               (case map_of (cells s2 e) ''userPrompt'' of
                  None \<Rightarrow> map_of (cells s2 p) k
                | Some v \<Rightarrow> if k = ''prompt'' then Some v else map_of (cells s2 p) k)"
    using copy_option_dict_item [of p e "''userPrompt''" "''prompt''" s2] by blast
  have run: "extractor_options p s = Inr s3"
    by (simp add: extractor_options_def ex and_then_def r1 r2 r3 flip: s0_def)
  have items: "\<And>k. map_of (cells s3 p) k =
              (if k = ''extractorOptions'' then None
               else if k = ''prompt'' then
                 (case map_of (cells s e) ''userPrompt'' of
                    Some u \<Rightarrow> Some u
                  | None \<Rightarrow>
                      (case map_of (cells s e) ''extractionPrompt'' of
                         Some a \<Rightarrow> Some a
                       | None \<Rightarrow> map_of (cells s p) ''prompt''))
               else if k = ''schema'' then
                 (case map_of (cells s e) ''extractionSchema'' of
                    Some v \<Rightarrow> Some v
                  | None \<Rightarrow> map_of (cells s p) ''schema'')
               else map_of (cells s p) k)"
    by (simp add: i3 e2 i2 e1 i1 e0 i0 split: option.splits)
  show ?thesis
    using run items by (simp add: l3 l2 l1 l0 c3 c2 c1 c0)
qed

lemma truthy_frame:
  "\<forall>a. a \<noteq> p \<longrightarrow> cells s' a = cells s a \<Longrightarrow> v \<noteq> VDict p \<Longrightarrow> truthy s' v = truthy s v"
  by (cases v) simp_all

lemma derived_formats_cong:
  assumes same: "\<forall>flag \<in> set flag_names. map_of d' flag = map_of d flag"
    and frame: "\<forall>a. a \<noteq> p \<longrightarrow> cells s' a = cells s a"
    and noself: "\<forall>flag \<in> set flag_names. map_of d flag \<noteq> Some (VDict p)"
  shows "derived_formats s' d' = derived_formats s d"
proof -
  have "truthy s' (case map_of d' flag of None \<Rightarrow> VBool dflt | Some v \<Rightarrow> v) =
        truthy s (case map_of d flag of None \<Rightarrow> VBool dflt | Some v \<Rightarrow> v)"
    if "(flag, dflt, token) \<in> set flag_table" for flag dflt token
  proof -
    from that have mem: "flag \<in> set flag_names"
      by (force simp: flag_names_def)
    with same have eq: "map_of d' flag = map_of d flag" by blast
    from mem noself have "map_of d flag \<noteq> Some (VDict p)" by blast
    then have "(case map_of d flag of None \<Rightarrow> VBool dflt | Some v \<Rightarrow> v) \<noteq> VDict p"
      by (rule flag_value_not_self)
    with frame show ?thesis
      by (simp add: eq truthy_frame)
  qed
  then show ?thesis
    unfolding derived_formats_def
    by (intro arg_cong [where f = "map _"] filter_cong) auto
qed

lemma set_formats_frame:
  "lim (set_formats p fs s) = lim s"
  "a \<noteq> p \<Longrightarrow> cells (set_formats p fs s) a = cells s a"
  by (simp_all add: set_formats_def lim_dict_setitem cells_dict_setitem)

lemma item_set_formats:
  "map_of (cells (set_formats p fs s) p) k =
     (if k = ''formats'' then
        (case map_of (cells s p) ''formats'' of
           Some v \<Rightarrow> Some v
         | None \<Rightarrow> Some (VList (if fs = [] then [VStr ''markdown''] else fs)))
      else map_of (cells s p) k)"
  by (auto simp: set_formats_def dict_contains_def item_dict_setitem)

lemma extractor_options_items:
  assumes ext: "\<forall>v. map_of (cells s p) ''extractorOptions'' = Some v \<longrightarrow> is_dict v"
  shows "\<exists>s1. extractor_options p s = Inr s1 \<and> lim s1 = lim s \<and>
           (\<forall>a. a \<noteq> p \<longrightarrow> cells s1 a = cells s a) \<and>
           (\<forall>k. map_of (cells s1 p) k =
              (if k = ''extractorOptions'' then None
               else if k = ''prompt'' then
                 first_of (extractor_item s p ''userPrompt'')
                   (first_of (extractor_item s p ''extractionPrompt'') (map_of (cells s p) ''prompt''))
               else if k = ''schema'' then
                 first_of (extractor_item s p ''extractionSchema'') (map_of (cells s p) ''schema'')
               else map_of (cells s p) k))"
proof (cases "map_of (cells s p) ''extractorOptions''")
  case None
  then show ?thesis
    by (simp add: extractor_options_absent extractor_item_def first_of_def)
next
  case (Some v)
  with ext obtain e where v: "v = VDict e"
    by (cases v) simp_all
  from Some v have ex: "map_of (cells s p) ''extractorOptions'' = Some (VDict e)"
    by simp
  have ei: "extractor_item s p k = map_of (cells s e) k" for k
    by (simp add: extractor_item_def ex)
  from extractor_options_dict [OF ex] show ?thesis
    unfolding ei first_of_def .
qed

lemma scrape_options_dict_items:
  assumes ext: "\<forall>v. map_of (cells s p) ''extractorOptions'' = Some v \<longrightarrow> is_dict v"
  shows "\<exists>s' fs. scrape_options_dict s p = Inr (VDict p, s') \<and> lim s' = lim s \<and>
           (\<forall>a. a \<noteq> p \<longrightarrow> cells s' a = cells s a) \<and>
           ((\<forall>flag \<in> set flag_names. map_of (cells s p) flag \<noteq> Some (VDict p)) \<longrightarrow>
              fs = derived_formats s (cells s p)) \<and>
           (\<forall>k. map_of (cells s' p) k = scrape_item fs s p k)"
proof -
  from extractor_options_items [OF ext] obtain s1 where
    r1: "extractor_options p s = Inr s1" and l1: "lim s1 = lim s"
    and c1: "\<forall>a. a \<noteq> p \<longrightarrow> cells s1 a = cells s a"
    and i1: "\<And>k. map_of (cells s1 p) k =
              (if k = ''extractorOptions'' then None
               else if k = ''prompt'' then
                 first_of (extractor_item s p ''userPrompt'')
                   (first_of (extractor_item s p ''extractionPrompt'') (map_of (cells s p) ''prompt''))
               else if k = ''schema'' then
                 first_of (extractor_item s p ''extractionSchema'') (map_of (cells s p) ''schema'')
               else map_of (cells s p) k)"
    by blast
  obtain s2 fs where cf: "collect_formats p s1 = (s2, fs)"
    by (cases "collect_formats p s1")
  have s2: "s2 = fst (collect_formats p s1)" and fs: "fs = snd (collect_formats p s1)"
    by (simp_all add: cf)
  define s3 where "s3 = rename_key s2 p ''onlyIncludeTags'' ''includeTags''"
  define s4 where "s4 = rename_key s3 p ''removeTags'' ''excludeTags''"
  define s5 where "s5 = set_formats p fs s4"
  have run: "scrape_options_dict s p = Inr (VDict p, s5)"
    by (simp add: scrape_options_dict_def r1 and_then_def cf s5_def s4_def s3_def)
  have lim5: "lim s5 = lim s"
    by (simp add: s5_def s4_def s3_def s2 set_formats_frame lim_rename_key collect_formats_lim l1)
  have frame: "cells s5 a = cells s a" if "a \<noteq> p" for a
    using that c1
    by (simp add: s5_def s4_def s3_def s2 set_formats_frame cells_rename_key_other
        collect_formats_fst_other)
  have flags_same: "\<forall>flag \<in> set flag_names. map_of (cells s1 p) flag = map_of (cells s p) flag"
    by (simp add: i1 flag_names_def flag_table_def)
  have derived: "fs = derived_formats s (cells s p)"
    if noself: "\<forall>flag \<in> set flag_names. map_of (cells s p) flag \<noteq> Some (VDict p)"
  proof -
    from noself flags_same
    have "\<forall>flag \<in> set flag_names. map_of (cells s1 p) flag \<noteq> Some (VDict p)"
      by simp
    then have "fs = derived_formats s1 (cells s1 p)"
      unfolding fs by (rule collect_formats_snd)
    also have "\<dots> = derived_formats s (cells s p)"
      using flags_same c1 noself by (rule derived_formats_cong)
    finally show ?thesis .
  qed
  have items: "map_of (cells s5 p) k = scrape_item fs s p k" for k
    by (simp add: s5_def s4_def s3_def s2 item_set_formats item_rename_key
        collect_formats_fst_item i1 scrape_item_def first_of_def flag_names_def flag_table_def
        split: option.splits)
  from run lim5 frame derived items show ?thesis
    by blast
qed

lemma page_options_absent:
  "map_of (cells s p) ''pageOptions'' = None \<Longrightarrow> page_options p s = Inr s"
  by (simp add: page_options_def)

lemma crawler_options_items:
  assumes absent: "map_of (cells s p) ''pageOptions'' = None"
  shows "\<exists>s'. prepare_crawler_options s p = Inr (VDict p, s') \<and> lim s' = lim s \<and>
           (\<forall>a. a \<noteq> p \<longrightarrow> cells s' a = cells s a) \<and>
           (\<forall>k. map_of (cells s' p) k =
              (if k = ''includes'' \<or> k = ''excludes'' \<or> k = ''allowBackwardCrawling''
                  \<or> k = ''allowExternalContentLinks''
               then None
               else if k = ''includePaths''
               then first_of (map_of (cells s p) ''includes'') (map_of (cells s p) ''includePaths'')
               else if k = ''excludePaths''
               then first_of (map_of (cells s p) ''excludes'') (map_of (cells s p) ''excludePaths'')
               else if k = ''allowBackwardLinks''
               then first_of (map_of (cells s p) ''allowBackwardCrawling'')
                      (map_of (cells s p) ''allowBackwardLinks'')
               else if k = ''allowExternalLinks''
               then first_of (map_of (cells s p) ''allowExternalContentLinks'')
                      (map_of (cells s p) ''allowExternalLinks'')
               else map_of (cells s p) k))"
proof -
  define s1 where "s1 = rename_key s p ''includes'' ''includePaths''"
  define s2 where "s2 = rename_key s1 p ''excludes'' ''excludePaths''"
  define s3 where "s3 = rename_key s2 p ''allowBackwardCrawling'' ''allowBackwardLinks''"
  define s4 where "s4 = rename_key s3 p ''allowExternalContentLinks'' ''allowExternalLinks''"
  have items: "map_of (cells s4 p) k =
              (if k = ''includes'' \<or> k = ''excludes'' \<or> k = ''allowBackwardCrawling''
                  \<or> k = ''allowExternalContentLinks''
               then None
               else if k = ''includePaths''
               then first_of (map_of (cells s p) ''includes'') (map_of (cells s p) ''includePaths'')
               else if k = ''excludePaths''
               then first_of (map_of (cells s p) ''excludes'') (map_of (cells s p) ''excludePaths'')
               else if k = ''allowBackwardLinks''
               then first_of (map_of (cells s p) ''allowBackwardCrawling'')
                      (map_of (cells s p) ''allowBackwardLinks'')
               else if k = ''allowExternalLinks''
               then first_of (map_of (cells s p) ''allowExternalContentLinks'')
                      (map_of (cells s p) ''allowExternalLinks'')
               else map_of (cells s p) k)" for k
    by (simp add: s4_def s3_def s2_def s1_def item_rename_key first_of_def split: option.splits)
  have "map_of (cells s4 p) ''pageOptions'' = None"
    by (simp add: items absent)
  then have "page_options p s4 = Inr s4"
    by (rule page_options_absent)
  then have run: "prepare_crawler_options s p = Inr (VDict p, s4)"
    by (simp add: prepare_crawler_options_def and_then_def s4_def s3_def s2_def s1_def)
  have "lim s4 = lim s"
    by (simp add: s4_def s3_def s2_def s1_def lim_rename_key)
  moreover have "\<forall>a. a \<noteq> p \<longrightarrow> cells s4 a = cells s a"
    by (simp add: s4_def s3_def s2_def s1_def cells_rename_key_other)
  ultimately show ?thesis
    using run items by blast
qed

lemma absent_key: "fst ` set d \<subseteq> set ks \<Longrightarrow> k \<notin> set ks \<Longrightarrow> map_of d k = None"
  by (auto simp: map_of_eq_None_iff)

lemma truthy_dict_new:
  "(\<And>a. v = VDict a \<Longrightarrow> a < lim s) \<Longrightarrow> truthy (snd (dict_new s)) v = truthy s v"
  by (cases v) (auto simp: dict_new_def)

lemma getattr_present_or_absent:
  "(\<forall>dflt. getattr doc name dflt = dflt) \<or> (\<exists>v. \<forall>dflt. getattr doc name dflt = v)"
proof (cases doc)
  case (VObj attrs)
  show ?thesis
    by (cases "map_of attrs name") (simp_all add: VObj)
qed simp_all

lemma getattr_cases:
  obtains (absent) "\<And>dflt. getattr doc name dflt = dflt"
  | (present) v where "\<And>dflt. getattr doc name dflt = v"
  using getattr_present_or_absent [of doc name] by blast

lemma content_choice:
  "py_or s (getattr doc ''markdown'' VNone)
     (py_or s (getattr doc ''html'' VNone)
       (py_or s (getattr doc ''rawHtml'' VNone) (VStr []))) =
   (case first_content s doc of None \<Rightarrow> VStr [] | Some c \<Rightarrow> c)"
  by (simp add: py_or_def first_content_def content_fields_def)

lemma first_content_Some:
  assumes "first_content s doc = Some c"
  shows "truthy s c \<and> (\<exists>name \<in> set content_fields. c = getattr doc name VNone)"
  using assms
  by (auto simp: first_content_def content_fields_def split: if_splits)

subsection \<open>The result projector\<close>

lemma typed_content:
  assumes "typed_record s doc" and "name \<in> set content_fields"
  shows "getattr doc name VNone = VNone \<or> (\<exists>t. getattr doc name VNone = VStr t)"
proof -
  from assms have "case getattr doc name VNone of
      VNone \<Rightarrow> True | VStr t \<Rightarrow> True | _ \<Rightarrow> False"
    by (simp add: typed_record_def)
  then show ?thesis
    by (cases "getattr doc name VNone") simp_all
qed

lemma typed_metadata:
  assumes "typed_record s doc"
  shows "getattr doc ''metadata'' VNone = VNone \<or>
         (\<exists>a < lim s. getattr doc ''metadata'' VNone = VDict a)"
proof -
  from assms have "case getattr doc ''metadata'' VNone of
      VNone \<Rightarrow> True | VDict a \<Rightarrow> a < lim s | _ \<Rightarrow> False"
    by (simp add: typed_record_def)
  then show ?thesis
    by (cases "getattr doc ''metadata'' VNone") simp_all
qed

lemma typed_first_content:
  assumes typed: "typed_record s doc"
  shows "first_content s' doc = first_content s doc"
proof -
  have "truthy s' x = truthy s x"
    if "x \<in> set (map (\<lambda>name. getattr doc name VNone) content_fields)" for x
  proof -
    from that obtain name where "name \<in> set content_fields" "x = getattr doc name VNone"
      by auto
    with typed_content [OF typed] have "x = VNone \<or> (\<exists>t. x = VStr t)"
      by blast
    then show ?thesis by auto
  qed
  then show ?thesis
    unfolding first_content_def by (intro find_cong) auto
qed

lemma typed_content_string:
  assumes typed: "typed_record s doc" and some: "first_content s doc = Some c"
  shows "\<exists>t. c = VStr t \<and> t \<noteq> []"
proof -
  from first_content_Some [OF some] obtain name where
    t: "truthy s c" and n: "name \<in> set content_fields" and c: "c = getattr doc name VNone"
    by blast
  from typed_content [OF typed n] c t show ?thesis
    by auto
qed

text \<open>Stores that only grow: the dictionaries that exist keep their items.\<close>

lemma typed_record_grow:
  assumes "typed_record s doc" and "lim s \<le> lim s'" and "\<forall>a < lim s. cells s' a = cells s a"
  shows "typed_record s' doc \<and> projected_unit s' doc = projected_unit s doc"
proof -
  from typed_metadata [OF assms(1)]
  have "attributes s' doc = attributes s doc"
    using assms(3) by (auto simp: attributes_def)
  moreover have "first_content s' doc = first_content s doc"
    using assms(1) by (rule typed_first_content)
  moreover have "typed_record s' doc"
    using assms(1,2) by (auto simp: typed_record_def split: pyval.splits)
  ultimately show ?thesis
    by (simp add: projected_unit_def)
qed

lemma project_doc_unit:
  assumes m: "m \<noteq> ''map''" "m \<noteq> ''extract''"
    and typed: "typed_record s doc"
  shows "\<exists>r s'. project_doc m s doc = Inr (r, s') \<and> lim s \<le> lim s' \<and>
           (\<forall>a < lim s. cells s' a = cells s a) \<and>
           map_option (unit_of s') r = projected_unit s doc \<and>
           (\<forall>d. r = Some d \<longrightarrow>
              is_str (page_content d) \<and> page_content d \<noteq> VStr [] \<and>
              (\<exists>a < lim s'. metadata d = VDict a))"
proof -
  define c where "c = (case first_content s doc of None \<Rightarrow> VStr [] | Some c \<Rightarrow> c)"
  have content: "py_or s (getattr doc ''markdown'' VNone)
     (py_or s (getattr doc ''html'' VNone)
       (py_or s (getattr doc ''rawHtml'' VNone) (VStr []))) = c"
    by (simp add: content_choice c_def)
  obtain t where ct: "c = VStr t" and tne: "t \<noteq> [] \<longleftrightarrow> first_content s doc \<noteq> None"
  proof (cases "first_content s doc")
    case None
    then show ?thesis using that [of "[]"] by (simp add: c_def)
  next
    case (Some x)
    from typed_content_string [OF typed Some] obtain u where "x = VStr u" "u \<noteq> []"
      by blast
    with Some show ?thesis using that [of u] by (simp add: c_def)
  qed
  have unit: "projected_unit s doc =
      (if t = [] then None else Some (VStr t, attributes s doc))"
    using tne ct by (cases "first_content s doc") (auto simp: projected_unit_def c_def)
  from typed_metadata [OF typed]
  consider (null) "getattr doc ''metadata'' VNone = VNone"
    | (dict) a where "a < lim s" "getattr doc ''metadata'' VNone = VDict a"
    by blast
  then show ?thesis
  proof cases
    case null
    define s1 where "s1 = snd (dict_new s)"
    define s2 where "s2 = snd (dict_new s1)"
    have dn: "dict_new s = (lim s, s1)" "dict_new s1 = (Suc (lim s), s2)"
      by (simp_all add: s1_def s2_def dict_new_def)
    have md: "\<not> truthy s1 (getattr doc ''metadata'' (VDict (lim s)))"
      using getattr_present_or_absent [of doc "''metadata''"] null
      by (auto simp: s1_def dict_new_def)
    have attr: "attributes s doc = []"
      by (simp add: attributes_def null)
    have s2: "lim s2 = Suc (Suc (lim s))" "cells s2 (Suc (lim s)) = []"
      "\<forall>a < lim s. cells s2 a = cells s a"
      by (simp_all add: s2_def s1_def dict_new_def)
    have run: "project_doc m s doc =
        (if t = [] then Inr (None, s2)
         else Inr (Some \<lparr>page_content = VStr t, metadata = VDict (Suc (lim s))\<rparr>, s2))"
      using m md by (simp add: project_doc_def content ct Let_def Document_def dn)
    show ?thesis
      by (simp add: run unit attr unit_of_def s2)
  next
    case dict
    define s1 where "s1 = snd (dict_new s)"
    define s2 where "s2 = snd (dict_new s1)"
    have dn: "dict_new s = (lim s, s1)" "dict_new s1 = (Suc (lim s), s2)"
      by (simp_all add: s1_def s2_def dict_new_def)
    have md: "getattr doc ''metadata'' (VDict (lim s)) = VDict a"
      using getattr_present_or_absent [of doc "''metadata''"] dict(2) by auto
    have attr: "attributes s doc = cells s a"
      by (simp add: attributes_def dict)
    have s1: "lim s1 = Suc (lim s)" "\<forall>b < lim s. cells s1 b = cells s b"
      by (simp_all add: s1_def dict_new_def)
    have s2: "lim s2 = Suc (Suc (lim s))" "cells s2 (Suc (lim s)) = []"
      "\<forall>b < lim s. cells s2 b = cells s b"
      by (simp_all add: s2_def s1_def dict_new_def)
    have t1: "cells s1 a = cells s a"
      using dict(1) s1 by simp
    have run: "project_doc m s doc =
        (if cells s a \<noteq> [] then
           (if t = [] then Inr (None, s1)
            else Inr (Some \<lparr>page_content = VStr t, metadata = VDict a\<rparr>, s1))
         else
           (if t = [] then Inr (None, s2)
            else Inr (Some \<lparr>page_content = VStr t, metadata = VDict (Suc (lim s))\<rparr>, s2)))"
      using m by (simp add: project_doc_def content ct Let_def Document_def dn md t1)
    show ?thesis
    proof (cases "cells s a = []")
      case True
      then show ?thesis
        by (simp add: run unit attr unit_of_def s2)
    next
      case False
      then show ?thesis
        using dict(1) by (simp add: run unit attr unit_of_def s1)
    qed
  qed
qed

lemma map_filter_same:
  "\<forall>x \<in> set xs. f x = g x \<Longrightarrow> List.map_filter f xs = List.map_filter g xs"
  by (induction xs) (auto simp: map_filter_simps split: option.splits)

lemma unit_of_grow:
  assumes "metadata d = VDict a" and "a < lim s" and "\<forall>b < lim s. cells s' b = cells s b"
  shows "unit_of s' d = unit_of s d"
  using assms by (simp add: unit_of_def)

lemma project_units:
  assumes m: "m \<noteq> ''map''" "m \<noteq> ''extract''"
    and typed: "\<forall>doc \<in> set docs. typed_record s doc"
  shows "\<exists>out s'. project m s docs = Inr (out, s') \<and> lim s \<le> lim s' \<and>
           (\<forall>a < lim s. cells s' a = cells s a) \<and>
           map (unit_of s') out = List.map_filter (projected_unit s) docs \<and>
           (\<forall>d \<in> set out.
              is_str (page_content d) \<and> page_content d \<noteq> VStr [] \<and>
              (\<exists>a < lim s'. metadata d = VDict a))"
  using typed
proof (induction docs arbitrary: s)
  case Nil
  show ?case
    by (simp add: map_filter_simps)
next
  case (Cons doc docs)
  from Cons.prems have td: "typed_record s doc"
    by simp
  from project_doc_unit [OF m td] obtain r s1 where
    r1: "project_doc m s doc = Inr (r, s1)" and l1: "lim s \<le> lim s1"
    and c1: "\<forall>a < lim s. cells s1 a = cells s a"
    and u1: "map_option (unit_of s1) r = projected_unit s doc"
    and d1: "\<forall>d. r = Some d \<longrightarrow>
              is_str (page_content d) \<and> page_content d \<noteq> VStr [] \<and>
              (\<exists>a < lim s1. metadata d = VDict a)"
    by (elim exE conjE) (rule that)
  have grow: "typed_record s1 x \<and> projected_unit s1 x = projected_unit s x"
    if "x \<in> set docs" for x
  proof -
    from that Cons.prems have "typed_record s x"
      by simp
    then show ?thesis
      using l1 c1 by (rule typed_record_grow)
  qed
  then have "\<forall>x \<in> set docs. typed_record s1 x"
    by simp
  from Cons.IH [OF this] obtain out2 s2 where
    r2: "project m s1 docs = Inr (out2, s2)" and l2: "lim s1 \<le> lim s2"
    and c2: "\<forall>a < lim s1. cells s2 a = cells s1 a"
    and u2: "map (unit_of s2) out2 = List.map_filter (projected_unit s1) docs"
    and d2: "\<forall>d \<in> set out2.
              is_str (page_content d) \<and> page_content d \<noteq> VStr [] \<and>
              (\<exists>a < lim s2. metadata d = VDict a)"
    by (elim exE conjE) (rule that)
  have same: "List.map_filter (projected_unit s1) docs = List.map_filter (projected_unit s) docs"
    using grow by (intro map_filter_same) simp
  define out where "out = (case r of None \<Rightarrow> [] | Some d \<Rightarrow> [d]) @ out2"
  have run: "project m s (doc # docs) = Inr (out, s2)"
    by (simp add: r1 r2 out_def)
  have lim: "lim s \<le> lim s2"
    using l1 l2 by simp
  have cells: "\<forall>a < lim s. cells s2 a = cells s a"
    using l1 c1 c2 by simp
  have later: "unit_of s2 d = unit_of s1 d" if "r = Some d" for d
  proof -
    from d1 that obtain a where a: "metadata d = VDict a" "a < lim s1"
      by blast
    from a c2 show ?thesis
      by (rule unit_of_grow)
  qed
  have units: "map (unit_of s2) out = List.map_filter (projected_unit s) (doc # docs)"
  proof (cases r)
    case None
    with u1 have "projected_unit s doc = None"
      by simp
    then show ?thesis
      by (simp add: out_def map_filter_simps None u2 same)
  next
    case (Some d)
    with u1 have "projected_unit s doc = Some (unit_of s1 d)"
      by simp
    then show ?thesis
      by (simp add: out_def map_filter_simps Some later [OF Some] u2 same)
  qed
  have docs: "\<forall>d \<in> set out.
              is_str (page_content d) \<and> page_content d \<noteq> VStr [] \<and>
              (\<exists>a < lim s2. metadata d = VDict a)"
  proof
    fix d assume "d \<in> set out"
    then consider "r = Some d" | "d \<in> set out2"
      by (auto simp: out_def split: option.splits)
    then show "is_str (page_content d) \<and> page_content d \<noteq> VStr [] \<and>
              (\<exists>a < lim s2. metadata d = VDict a)"
    proof cases
      case 1
      with d1 obtain a where str: "is_str (page_content d)" "page_content d \<noteq> VStr []"
        and a: "a < lim s1" "metadata d = VDict a"
        by blast
      from a l2 have "a < lim s2"
        by simp
      with str a show ?thesis
        by blast
    next
      case 2
      with d2 show ?thesis
        by blast
    qed
  qed
  show ?case
    by (intro exI [of _ out] exI [of _ s2] conjI run lim cells units docs)
qed

lemma project_doc_rejects_number:
  "project_doc ''scrape'' s number_record = Inl ValidationError"
  by (simp add: project_doc_def number_record_def py_or_def dict_new_def Let_def Document_def)

lemma prepare_crawler_options_result:
  "prepare_crawler_options s p = Inr (r, s') \<Longrightarrow> r = VDict p"
  by (auto simp: prepare_crawler_options_def and_then_def split: sum.splits)

lemma crawler_options_nested:
  assumes po: "map_of (cells s p) ''pageOptions'' = Some (VDict q)" and qp: "q \<noteq> p"
    and ext: "map_of (cells s q) ''extractorOptions'' = None"
    and flags: "\<forall>flag \<in> set flag_names. \<forall>a. map_of (cells s q) flag \<noteq> Some (VDict a)"
  shows "\<exists>s'. prepare_crawler_options s p = Inr (VDict p, s') \<and> lim s' = lim s \<and>
           (\<forall>a. a \<noteq> p \<and> a \<noteq> q \<longrightarrow> cells s' a = cells s a) \<and>
           (\<forall>k. map_of (cells s' q) k = scrape_item (derived_formats s (cells s q)) s q k)"
proof -
  define s4 where "s4 =
     rename_key
       (rename_key
         (rename_key
           (rename_key s p ''includes'' ''includePaths'')
           p ''excludes'' ''excludePaths'')
         p ''allowBackwardCrawling'' ''allowBackwardLinks'')
       p ''allowExternalContentLinks'' ''allowExternalLinks''"
  define s5 where "s5 = dict_remove s4 p ''pageOptions''"
  have po4: "map_of (cells s4 p) ''pageOptions'' = Some (VDict q)"
    by (simp add: s4_def item_rename_key po split: option.splits)
  have l5: "lim s5 = lim s"
    by (simp add: s5_def s4_def lim_dict_remove lim_rename_key)
  have c5: "\<forall>a. a \<noteq> p \<longrightarrow> cells s5 a = cells s a"
    by (simp add: s5_def s4_def cells_dict_remove cells_rename_key_other)
  with qp have q5: "cells s5 q = cells s q"
    by simp
  have "\<forall>v. map_of (cells s5 q) ''extractorOptions'' = Some v \<longrightarrow> is_dict v"
    by (simp add: q5 ext)
  from scrape_options_dict_items [OF this] obtain s6 fs where
    run6: "scrape_options_dict s5 q = Inr (VDict q, s6)" and l6: "lim s6 = lim s5"
    and c6: "\<forall>a. a \<noteq> q \<longrightarrow> cells s6 a = cells s5 a"
    and fs: "(\<forall>flag \<in> set flag_names. map_of (cells s5 q) flag \<noteq> Some (VDict q)) \<longrightarrow>
              fs = derived_formats s5 (cells s5 q)"
    and i6: "\<And>k. map_of (cells s6 q) k = scrape_item fs s5 q k"
    by blast
  from flags have noq: "\<forall>flag \<in> set flag_names. map_of (cells s q) flag \<noteq> Some (VDict q)"
    and nop: "\<forall>flag \<in> set flag_names. map_of (cells s q) flag \<noteq> Some (VDict p)"
    by blast+
  from fs noq have "fs = derived_formats s5 (cells s q)"
    by (simp add: q5)
  also have "\<dots> = derived_formats s (cells s q)"
    using _ c5 nop by (rule derived_formats_cong) simp
  finally have fs': "fs = derived_formats s (cells s q)" .
  have item_eq: "scrape_item f s5 q k = scrape_item f s q k" for f k
    by (simp add: scrape_item_def extractor_item_def q5 ext)
  define s7 where "s7 = dict_setitem s6 p ''scrapeOptions'' (VDict q)"
  have run: "prepare_crawler_options s p = Inr (VDict p, s7)"
    by (simp add: prepare_crawler_options_def page_options_def and_then_def po4 run6 s7_def
        flip: s4_def s5_def)
  have "lim s7 = lim s"
    by (simp add: s7_def lim_dict_setitem l6 l5)
  moreover have "\<forall>a. a \<noteq> p \<and> a \<noteq> q \<longrightarrow> cells s7 a = cells s a"
    using c6 c5 by (simp add: s7_def cells_dict_setitem)
  moreover have "\<forall>k. map_of (cells s7 q) k = scrape_item (derived_formats s (cells s q)) s q k"
    using qp by (simp add: s7_def cells_dict_setitem i6 item_eq fs')
  ultimately show ?thesis
    using run by blast
qed

lemma prepare_scrape_options_empty:
  assumes "cells s p = []"
  shows "cell_after (prepare_scrape_options s (VDict p)) p = [(''formats'', VList [VStr ''markdown''])]"
  using assms
  by (simp add: cell_after_def scrape_options_dict_def extractor_options_def and_then_def
      collect_formats_def flag_step_eq dict_get_def cells_dict_remove rename_key_def
      set_formats_def dict_contains_def cells_dict_setitem)

subsection \<open>The image-generation wrapper\<close>

declare decimal.simps [simp del]

lemma model_kwargs_item:
  "DallEAPIWrapper dflt env kwargs = Inr w \<Longrightarrow>
   map_of (model_kwargs w) k = (if k \<in> set recognized then None else map_of kwargs k)"
proof -
  have "map_of (filter (\<lambda>kv. fst kv \<notin> set recognized) kwargs) k =
        (if k \<in> set recognized then None else map_of kwargs k)"
    by (induction kwargs) auto
  moreover assume "DallEAPIWrapper dflt env kwargs = Inr w"
  ultimately show ?thesis
    by (auto simp: DallEAPIWrapper_def split: if_splits)
qed

lemma join_closed_form:
  "join sep (u # us) = u @ concat (map (\<lambda>x. sep @ x) us)"
  by (induction us arbitrary: u) simp_all

section \<open>The claims\<close>

text \<open>
  C1 (as the code has it). On a map that holds legacy keys only, each normaliser renames the
  legacy keys of its own level and passes the others through. \<^verbatim>\<open>_prepare_crawler_options\<close>
  removes \<^verbatim>\<open>includes\<close>, \<^verbatim>\<open>excludes\<close>, \<^verbatim>\<open>allowBackwardCrawling\<close> and
  \<^verbatim>\<open>allowExternalContentLinks\<close> and stores each value under its canonical key, and
  leaves \<^verbatim>\<open>onlyIncludeTags\<close> and \<^verbatim>\<open>removeTags\<close> as they are;
  \<^verbatim>\<open>_prepare_scrape_options\<close> removes \<^verbatim>\<open>onlyIncludeTags\<close> and \<^verbatim>\<open>removeTags\<close> and
  stores each value under its canonical key, and leaves the four crawler keys as they are.
  Each rename is independent of the others, and an absent legacy key leaves its canonical
  key absent.
\<close>

theorem legacy_keys_renamed_by_level:
  assumes only: "fst ` set (cells s p) \<subseteq> set legacy_keys"
  shows "(\<exists>s'. prepare_crawler_options s p = Inr (VDict p, s') \<and>
            (\<forall>(old, new) \<in> set crawl_renames.
               map_of (cells s' p) old = None \<and>
               map_of (cells s' p) new = map_of (cells s p) old) \<and>
            (\<forall>(old, new) \<in> set tag_renames.
               map_of (cells s' p) old = map_of (cells s p) old \<and>
               map_of (cells s' p) new = None)) \<and>
         (\<exists>s'. prepare_scrape_options s (VDict p) = Inr (VDict p, s') \<and>
            (\<forall>(old, new) \<in> set tag_renames.
               map_of (cells s' p) old = None \<and>
               map_of (cells s' p) new = map_of (cells s p) old) \<and>
            (\<forall>(old, new) \<in> set crawl_renames.
               map_of (cells s' p) old = map_of (cells s p) old \<and>
               map_of (cells s' p) new = None))"
proof -
  have none: "map_of (cells s p) k = None" if "k \<notin> set legacy_keys" for k
    using only that by (rule absent_key)
  have legacy: "set legacy_keys = {''includes'', ''excludes'', ''allowBackwardCrawling'',
      ''allowExternalContentLinks'', ''onlyIncludeTags'', ''removeTags''}"
    by (simp add: legacy_keys_def crawl_renames_def tag_renames_def)
  have "map_of (cells s p) ''pageOptions'' = None"
    by (rule none) (simp add: legacy)
  from crawler_options_items [OF this] obtain s1 where
    run1: "prepare_crawler_options s p = Inr (VDict p, s1)"
    and items1: "\<And>k. map_of (cells s1 p) k =
              (if k = ''includes'' \<or> k = ''excludes'' \<or> k = ''allowBackwardCrawling''
                  \<or> k = ''allowExternalContentLinks''
               then None
               else if k = ''includePaths''
               then first_of (map_of (cells s p) ''includes'') (map_of (cells s p) ''includePaths'')
               else if k = ''excludePaths''
               then first_of (map_of (cells s p) ''excludes'') (map_of (cells s p) ''excludePaths'')
               else if k = ''allowBackwardLinks''
               then first_of (map_of (cells s p) ''allowBackwardCrawling'')
                      (map_of (cells s p) ''allowBackwardLinks'')
               else if k = ''allowExternalLinks''
               then first_of (map_of (cells s p) ''allowExternalContentLinks'')
                      (map_of (cells s p) ''allowExternalLinks'')
               else map_of (cells s p) k)"
    by blast
  have canon: "map_of (cells s p) ''includePaths'' = None"
    "map_of (cells s p) ''excludePaths'' = None"
    "map_of (cells s p) ''allowBackwardLinks'' = None"
    "map_of (cells s p) ''allowExternalLinks'' = None"
    "map_of (cells s p) ''includeTags'' = None"
    "map_of (cells s p) ''excludeTags'' = None"
    by (rule none, simp add: legacy)+
  have crawl: "(\<forall>(old, new) \<in> set crawl_renames.
               map_of (cells s1 p) old = None \<and>
               map_of (cells s1 p) new = map_of (cells s p) old) \<and>
            (\<forall>(old, new) \<in> set tag_renames.
               map_of (cells s1 p) old = map_of (cells s p) old \<and>
               map_of (cells s1 p) new = None)"
    by (simp add: crawl_renames_def tag_renames_def items1 canon first_of_def
        split: option.splits)
  have "map_of (cells s p) ''extractorOptions'' = None"
    by (rule none) (simp add: legacy)
  then have "\<forall>v. map_of (cells s p) ''extractorOptions'' = Some v \<longrightarrow> is_dict v"
    by simp
  from scrape_options_dict_items [OF this] obtain s2 fs where
    run2: "scrape_options_dict s p = Inr (VDict p, s2)"
    and items2: "\<And>k. map_of (cells s2 p) k = scrape_item fs s p k"
    by blast
  have scrape: "(\<forall>(old, new) \<in> set tag_renames.
               map_of (cells s2 p) old = None \<and>
               map_of (cells s2 p) new = map_of (cells s p) old) \<and>
            (\<forall>(old, new) \<in> set crawl_renames.
               map_of (cells s2 p) old = map_of (cells s p) old \<and>
               map_of (cells s2 p) new = None)"
    by (simp add: crawl_renames_def tag_renames_def items2 scrape_item_def canon first_of_def
        flag_names_def flag_table_def split: option.splits)
  from run1 crawl run2 scrape show ?thesis
    by simp
qed

text \<open>
  The two normalisers on the map with all six legacy keys.
\<close>

theorem legacy_keys_renamed_by_level_witness:
  "(\<exists>s'. prepare_crawler_options six_legacy 0 = Inr (VDict 0, s') \<and>
      map_of (cells s' 0) ''includes'' = None \<and>
      map_of (cells s' 0) ''includePaths'' = Some (VList [VStr ''/blog'']) \<and>
      map_of (cells s' 0) ''allowExternalContentLinks'' = None \<and>
      map_of (cells s' 0) ''allowExternalLinks'' = Some (VBool False) \<and>
      map_of (cells s' 0) ''removeTags'' = Some (VList [VStr ''nav''])) \<and>
   (\<exists>s'. prepare_scrape_options six_legacy (VDict 0) = Inr (VDict 0, s') \<and>
      map_of (cells s' 0) ''removeTags'' = None \<and>
      map_of (cells s' 0) ''excludeTags'' = Some (VList [VStr ''nav'']) \<and>
      map_of (cells s' 0) ''includes'' = Some (VList [VStr ''/blog'']))"
proof -
  have c0: "cells six_legacy 0 =
       [(''includes'', VList [VStr ''/blog'']),
        (''excludes'', VList [VStr ''/admin'']),
        (''allowBackwardCrawling'', VBool True),
        (''allowExternalContentLinks'', VBool False),
        (''onlyIncludeTags'', VList [VStr ''article'']),
        (''removeTags'', VList [VStr ''nav''])]"
    by (simp add: six_legacy_def store_of_def)
  have only: "fst ` set (cells six_legacy 0) \<subseteq> set legacy_keys"
    by (simp add: c0 legacy_keys_def crawl_renames_def tag_renames_def)
  from legacy_keys_renamed_by_level [OF only] show ?thesis
    by (simp add: crawl_renames_def tag_renames_def c0) blast
qed

text \<open>
  C1 as stated fails: on the map with the six legacy keys and nothing else, the crawler
  normaliser keeps \<^verbatim>\<open>removeTags\<close> and sets no \<^verbatim>\<open>excludeTags\<close>, and the scrape normaliser
  keeps \<^verbatim>\<open>includes\<close> and sets no \<^verbatim>\<open>includePaths\<close>. No normaliser removes every legacy
  key.
\<close>

theorem legacy_keys_counterexample:
  "fst ` set (cells six_legacy 0) \<subseteq> set legacy_keys \<and>
   map_of (cell_after (prepare_crawler_options six_legacy 0) 0) ''removeTags'' =
     Some (VList [VStr ''nav'']) \<and>
   map_of (cell_after (prepare_crawler_options six_legacy 0) 0) ''excludeTags'' = None \<and>
   map_of (cell_after (prepare_scrape_options six_legacy (VDict 0)) 0) ''includes'' =
     Some (VList [VStr ''/blog'']) \<and>
   map_of (cell_after (prepare_scrape_options six_legacy (VDict 0)) 0) ''includePaths'' = None"
proof -
  have c0: "cells six_legacy 0 =
       [(''includes'', VList [VStr ''/blog'']),
        (''excludes'', VList [VStr ''/admin'']),
        (''allowBackwardCrawling'', VBool True),
        (''allowExternalContentLinks'', VBool False),
        (''onlyIncludeTags'', VList [VStr ''article'']),
        (''removeTags'', VList [VStr ''nav''])]"
    by (simp add: six_legacy_def store_of_def)
  have only: "fst ` set (cells six_legacy 0) \<subseteq> set legacy_keys"
    by (simp add: c0 legacy_keys_def crawl_renames_def tag_renames_def)
  have "map_of (cells six_legacy 0) ''pageOptions'' = None"
    by (simp add: c0)
  from crawler_options_items [OF this] obtain s1 where
    "prepare_crawler_options six_legacy 0 = Inr (VDict 0, s1)"
    and "map_of (cells s1 0) ''removeTags'' = map_of (cells six_legacy 0) ''removeTags''"
    and "map_of (cells s1 0) ''excludeTags'' = map_of (cells six_legacy 0) ''excludeTags''"
    by auto
  then have crawl: "map_of (cell_after (prepare_crawler_options six_legacy 0) 0) ''removeTags'' =
     Some (VList [VStr ''nav''])"
    "map_of (cell_after (prepare_crawler_options six_legacy 0) 0) ''excludeTags'' = None"
    by (simp_all add: cell_after_def c0)
  have "\<forall>v. map_of (cells six_legacy 0) ''extractorOptions'' = Some v \<longrightarrow> is_dict v"
    by (simp add: c0)
  from scrape_options_dict_items [OF this] obtain s2 fs where
    "scrape_options_dict six_legacy 0 = Inr (VDict 0, s2)"
    and "\<And>k. map_of (cells s2 0) k = scrape_item fs six_legacy 0 k"
    by blast
  then have scrape:
    "map_of (cell_after (prepare_scrape_options six_legacy (VDict 0)) 0) ''includes'' =
       Some (VList [VStr ''/blog''])"
    "map_of (cell_after (prepare_scrape_options six_legacy (VDict 0)) 0) ''includePaths'' = None"
    by (simp_all add: cell_after_def scrape_item_def flag_names_def flag_table_def c0)
  from only crawl scrape show ?thesis
    by simp
qed

text \<open>
  C2. A scrape-style map whose \<^verbatim>\<open>extractorOptions\<close>, if present, is a map, and none of
  whose flags holds the map itself: \<^verbatim>\<open>_prepare_scrape_options\<close> returns the map, with
  every flag key removed. A \<^verbatim>\<open>formats\<close> key of the input keeps its value; otherwise
  \<^verbatim>\<open>formats\<close> is the list of the tokens of the flags that are true, in the order
  markdown, html, rawHtml, extract, links, screenshot, screenshot@fullPage, where
  \<^verbatim>\<open>includeMarkdown\<close> counts as true when absent and the other flags as false, or the
  one-element list of markdown when no flag is true. The empty map becomes exactly the map
  with the single item \<^verbatim>\<open>formats\<close>: [markdown].
\<close>

theorem scrape_formats_derived:
  assumes ext: "\<forall>v. map_of (cells s p) ''extractorOptions'' = Some v \<longrightarrow> is_dict v"
    and noself: "\<forall>flag \<in> set flag_names. map_of (cells s p) flag \<noteq> Some (VDict p)"
  shows "\<exists>s'. prepare_scrape_options s (VDict p) = Inr (VDict p, s') \<and>
           (\<forall>flag \<in> set flag_names. map_of (cells s' p) flag = None) \<and>
           map_of (cells s' p) ''formats'' =
             (case map_of (cells s p) ''formats'' of
                Some v \<Rightarrow> Some v
              | None \<Rightarrow>
                  Some (VList (if derived_formats s (cells s p) = [] then [VStr ''markdown'']
                               else derived_formats s (cells s p)))) \<and>
           (cells s p = [] \<longrightarrow> cells s' p = [(''formats'', VList [VStr ''markdown''])])"
proof -
  from scrape_options_dict_items [OF ext] noself obtain s' where
    run: "scrape_options_dict s p = Inr (VDict p, s')"
    and items: "\<And>k. map_of (cells s' p) k = scrape_item (derived_formats s (cells s p)) s p k"
    by blast
  have flags: "\<forall>flag \<in> set flag_names. map_of (cells s' p) flag = None"
    by (simp add: items scrape_item_def)
  have formats: "map_of (cells s' p) ''formats'' =
             (case map_of (cells s p) ''formats'' of
                Some v \<Rightarrow> Some v
              | None \<Rightarrow>
                  Some (VList (if derived_formats s (cells s p) = [] then [VStr ''markdown'']
                               else derived_formats s (cells s p))))"
    by (simp add: items scrape_item_def first_of_def flag_names_def flag_table_def)
  have empty: "cells s' p = [(''formats'', VList [VStr ''markdown''])]" if "cells s p = []"
    using prepare_scrape_options_empty [OF that] run by (simp add: cell_after_def)
  from run flags formats empty show ?thesis
    by simp
qed

text \<open>
  The derivation at the map with \<^verbatim>\<open>includeHtml\<close> true and \<^verbatim>\<open>includeMarkdown\<close> false:
  the formats are html alone. The empty map: the formats are markdown alone.
\<close>

theorem scrape_formats_derived_witness:
  "(\<exists>s'. prepare_scrape_options html_only (VDict 0) = Inr (VDict 0, s') \<and>
      map_of (cells s' 0) ''includeHtml'' = None \<and>
      map_of (cells s' 0) ''includeMarkdown'' = None \<and>
      map_of (cells s' 0) ''formats'' = Some (VList [VStr ''html''])) \<and>
   (\<exists>s'. prepare_scrape_options (store_of [[]]) (VDict 0) = Inr (VDict 0, s') \<and>
      cells s' 0 = [(''formats'', VList [VStr ''markdown''])])"
proof -
  have "\<exists>s'. prepare_scrape_options html_only (VDict 0) = Inr (VDict 0, s') \<and>
      map_of (cells s' 0) ''includeHtml'' = None \<and>
      map_of (cells s' 0) ''includeMarkdown'' = None \<and>
      map_of (cells s' 0) ''formats'' = Some (VList [VStr ''html''])"
    using scrape_formats_derived [of html_only 0]
    by (simp add: html_only_def store_of_def flag_names_def flag_table_def derived_formats_def)
      blast
  moreover
  have "\<exists>s'. prepare_scrape_options (store_of [[]]) (VDict 0) = Inr (VDict 0, s') \<and>
      cells s' 0 = [(''formats'', VList [VStr ''markdown''])]"
    using scrape_formats_derived [of "store_of [[]]" 0]
    by (simp add: store_of_def flag_names_def flag_table_def) blast
  ultimately show ?thesis
    by simp
qed

text \<open>
  C3 fails on the code. The loader normalises a shallow copy of its parameters, so the map
  under \<^verbatim>\<open>pageOptions\<close> is the caller's own object and \<^verbatim>\<open>_prepare_scrape_options\<close>
  rewrites it in place. A loader in crawl mode whose parameters are
  \<^verbatim>\<open>{"pageOptions": {"includeHtml": True}}\<close>, consumed with a client that answers an empty
  mapping: the caller's top-level map is as before, and the caller's nested map has lost
  \<^verbatim>\<open>includeHtml\<close> and gained \<^verbatim>\<open>formats\<close>.
\<close>

theorem crawl_normalisation_mutates_nested_map:
  "cells nested_options 0 = [(''pageOptions'', VDict 1)] \<and>
   cells nested_options 1 = [(''includeHtml'', VBool True)] \<and>
   cell_after (fst (lazy_load no_text crawl_loader nested_options)) 0 =
     [(''pageOptions'', VDict 1)] \<and>
   map_of (cell_after (fst (lazy_load no_text crawl_loader nested_options)) 1) ''includeHtml'' =
     None \<and>
   map_of (cell_after (fst (lazy_load no_text crawl_loader nested_options)) 1) ''formats'' =
     Some (VList [VStr ''markdown'', VStr ''html''])"
proof -
  define s1 where "s1 = snd (dict_copy nested_options 0)"
  have copy: "dict_copy nested_options 0 = (2, s1)"
    by (simp add: s1_def dict_copy_def nested_options_def store_of_def)
  have c1: "cells s1 0 = [(''pageOptions'', VDict (Suc 0))]"
    "cells s1 (Suc 0) = [(''includeHtml'', VBool True)]"
    "cells s1 2 = [(''pageOptions'', VDict (Suc 0))]" and l1: "lim s1 = 3"
    by (simp_all add: s1_def dict_copy_def nested_options_def store_of_def)
  have df: "derived_formats s1 (cells s1 (Suc 0)) = [VStr ''markdown'', VStr ''html'']"
    by (simp add: derived_formats_def flag_table_def c1)
  have "\<exists>s'. prepare_crawler_options s1 2 = Inr (VDict 2, s') \<and> lim s' = lim s1 \<and>
           (\<forall>a. a \<noteq> 2 \<and> a \<noteq> Suc 0 \<longrightarrow> cells s' a = cells s1 a) \<and>
           (\<forall>k. map_of (cells s' (Suc 0)) k =
                  scrape_item (derived_formats s1 (cells s1 (Suc 0))) s1 (Suc 0) k)"
    by (rule crawler_options_nested) (simp_all add: c1 flag_names_def flag_table_def)
  then obtain s2 where norm: "prepare_crawler_options s1 2 = Inr (VDict 2, s2)"
    and l2: "lim s2 = 3" and c20: "cells s2 0 = cells s1 0"
    and i2: "\<And>k. map_of (cells s2 (Suc 0)) k =
                  scrape_item [VStr ''markdown'', VStr ''html''] s1 (Suc 0) k"
    by (auto simp: l1 df)
  define s3 where "s3 = snd (dict_new s2)"
  have new: "dict_new s2 = (3, s3)"
    by (simp add: s3_def dict_new_def l2)
  have c3: "cells s3 0 = cells s2 0" "cells s3 (Suc 0) = cells s2 (Suc 0)" "cells s3 3 = []"
    by (simp_all add: s3_def dict_new_def l2)
  have "fetch no_text crawl_loader nested_options =
          (Inr (VList [], s3), [CrawlUrl ''https://example.com'' (cells s2 2)])"
    by (simp add: fetch_def crawl_loader_def copy norm and_then_def invoke_def
        empty_client_def new dict_get_def c3)
  then have run: "fst (lazy_load no_text crawl_loader nested_options) = Inr ([], s3)"
    by (simp add: lazy_load_def and_then_def)
  have after: "cell_after (fst (lazy_load no_text crawl_loader nested_options)) a = cells s3 a"
    for a
    by (simp add: run cell_after_def)
  have "cells s3 0 = [(''pageOptions'', VDict (Suc 0))]"
    by (simp add: c3 c20 c1)
  moreover have "map_of (cells s3 (Suc 0)) ''includeHtml'' = None"
    by (simp add: c3 i2 scrape_item_def flag_names_def flag_table_def)
  moreover have "map_of (cells s3 (Suc 0)) ''formats'' =
      Some (VList [VStr ''markdown'', VStr ''html''])"
    by (simp add: c3 i2 c1 scrape_item_def flag_names_def flag_table_def first_of_def)
  moreover have "cells nested_options 0 = [(''pageOptions'', VDict (Suc 0))]"
    "cells nested_options (Suc 0) = [(''includeHtml'', VBool True)]"
    by (simp_all add: nested_options_def store_of_def)
  ultimately show ?thesis
    by (simp add: after)
qed

text \<open>
  C4. In a mode other than map and extract, for the records the client answered, each typed
  as the specification types a Response Record (content fields absent, null or strings; the
  attributes field absent, null or a mapping): \<^verbatim>\<open>lazy_load\<close> raises nothing, and the
  sequence it yields is, in the order of the records, one (content, attributes) pair for
  each record that has content and nothing for a record that has none. The content is the
  first of \<^verbatim>\<open>markdown\<close>, \<^verbatim>\<open>html\<close>, \<^verbatim>\<open>rawHtml\<close> that is present and not empty; the
  attributes are the items of the record's \<^verbatim>\<open>metadata\<close>, and the empty mapping when that
  field is absent or null. Every document yielded has a non-empty string as content and a
  dictionary as metadata.
\<close>

theorem lazy_load_projects_records:
  assumes m: "mode self \<noteq> ''map''" "mode self \<noteq> ''extract''"
    and fetched: "fetch str_of self s = (Inr (firecrawl_docs, s1), calls)"
    and iter: "py_iter s1 firecrawl_docs = Inr docs"
    and typed: "\<forall>doc \<in> set docs. typed_record s1 doc"
  shows "\<exists>out s'. lazy_load str_of self s = (Inr (out, s'), calls) \<and>
           map (unit_of s') out = List.map_filter (projected_unit s1) docs \<and>
           (\<forall>d \<in> set out.
              is_str (page_content d) \<and> page_content d \<noteq> VStr [] \<and> is_dict (metadata d))"
proof -
  from project_units [OF m typed] obtain out s' where
    run: "project (mode self) s1 docs = Inr (out, s')"
    and units: "map (unit_of s') out = List.map_filter (projected_unit s1) docs"
    and docs: "\<forall>d \<in> set out.
              is_str (page_content d) \<and> page_content d \<noteq> VStr [] \<and>
              (\<exists>a < lim s'. metadata d = VDict a)"
    by blast
  have "lazy_load str_of self s = (Inr (out, s'), calls)"
    by (simp add: lazy_load_def fetched and_then_def iter run)
  moreover from docs have "\<forall>d \<in> set out.
              is_str (page_content d) \<and> page_content d \<noteq> VStr [] \<and> is_dict (metadata d)"
    by fastforce
  ultimately show ?thesis
    using units by blast
qed

text \<open>
  Three records answered to a search: html only with null metadata, no content at all, and
  markdown and html with a metadata mapping. Two documents are yielded, in that order: the
  html with no attributes and the markdown with the mapping's items.
\<close>

theorem lazy_load_projects_records_witness:
  "\<exists>out s'. lazy_load no_text records_loader records_store =
               (Inr (out, s'), [Search [(''query'', VNone)]]) \<and>
     map (unit_of s') out =
       [(VStr ''<p>hi</p>'', []), (VStr ''# Title'', [(''title'', VStr ''Home'')])] \<and>
     (\<forall>d \<in> set out.
        is_str (page_content d) \<and> page_content d \<noteq> VStr [] \<and> is_dict (metadata d))"
proof -
  have m: "mode records_loader \<noteq> ''map''" "mode records_loader \<noteq> ''extract''"
    by (simp_all add: records_loader_def)
  have fetched: "fetch no_text records_loader records_store =
      (Inr (VList [html_record, empty_record, titled_record], records_store),
       [Search [(''query'', VNone)]])"
    by (simp add: fetch_def records_loader_def records_store_def store_of_def call_kwargs_def
        dict_get_def invoke_def records_client_def)
  have iter: "py_iter records_store (VList [html_record, empty_record, titled_record]) =
      Inr [html_record, empty_record, titled_record]"
    by simp
  have typed: "\<forall>doc \<in> set [html_record, empty_record, titled_record].
      typed_record records_store doc"
    by (simp add: typed_record_def content_fields_def html_record_def empty_record_def
        titled_record_def records_store_def store_of_def)
  have units: "List.map_filter (projected_unit records_store)
      [html_record, empty_record, titled_record] =
      [(VStr ''<p>hi</p>'', []), (VStr ''# Title'', [(''title'', VStr ''Home'')])]"
    by (simp add: map_filter_simps projected_unit_def first_content_def content_fields_def
        attributes_def html_record_def empty_record_def titled_record_def records_store_def
        store_of_def)
  from lazy_load_projects_records [OF m fetched iter typed] show ?thesis
    unfolding units .
qed

text \<open>
  C5. For a wrapper built with a quality value supplied by the caller, the outgoing call
  has a \<^verbatim>\<open>quality\<close> argument exactly when the model identifier equals \<^verbatim>\<open>dall-e-3\<close>,
  and then it is the supplied value; for any other identifier, \<^verbatim>\<open>dall-e-2\<close> among them,
  there is none. The model identifier is the \<^verbatim>\<open>model\<close> keyword when given.
\<close>

theorem quality_only_for_dalle3:
  assumes built: "DallEAPIWrapper dflt env kwargs = Inr w"
    and supplied: "map_of kwargs ''quality'' = Some q"
  shows "(''quality'' \<in> fst ` set (request_args w prompt) \<longleftrightarrow> model_name w = VStr ''dall-e-3'') \<and>
         map_of (request_args w prompt) ''quality'' =
           (if model_name w = VStr ''dall-e-3'' then Some q else None) \<and>
         model_name w = (case map_of kwargs ''model'' of None \<Rightarrow> dflt ''model'' | Some m \<Rightarrow> m)"
proof -
  have ext: "map_of (model_kwargs w) ''quality'' = None"
    using model_kwargs_item [OF built, of "''quality''"] by (simp add: recognized_def)
  from built supplied have q: "quality w = q"
    and m: "model_name w = (case map_of kwargs ''model'' of None \<Rightarrow> dflt ''model'' | Some m \<Rightarrow> m)"
    by (auto simp: DallEAPIWrapper_def split: if_splits)
  have val: "map_of (request_args w prompt) ''quality'' =
           (if model_name w = VStr ''dall-e-3'' then Some q else None)"
    by (simp add: request_args_def ext q)
  have "''quality'' \<in> fst ` set (request_args w prompt) \<longleftrightarrow>
        map_of (request_args w prompt) ''quality'' \<noteq> None"
    by (simp add: map_of_eq_None_iff)
  with val m show ?thesis
    by simp
qed

text \<open>
  The two cases of the unit tests: quality hd with \<^verbatim>\<open>dall-e-2\<close> and with \<^verbatim>\<open>dall-e-3\<close>.
\<close>

theorem quality_only_for_dalle3_witness:
  "(\<exists>w. DallEAPIWrapper test_defaults None
          [(''model'', VStr ''dall-e-2''), (''quality'', VStr ''hd''), (''api_key'', VStr ''foo'')] = Inr w \<and>
        map_of (request_args w ''a cat'') ''quality'' = None \<and>
        model_name w = VStr ''dall-e-2'') \<and>
   (\<exists>w. DallEAPIWrapper test_defaults None
          [(''model'', VStr ''dall-e-3''), (''quality'', VStr ''hd''), (''api_key'', VStr ''foo'')] = Inr w \<and>
        map_of (request_args w ''a dog'') ''quality'' = Some (VStr ''hd'') \<and>
        model_name w = VStr ''dall-e-3'')"
proof -
  obtain w2 where b2: "DallEAPIWrapper test_defaults None
          [(''model'', VStr ''dall-e-2''), (''quality'', VStr ''hd''), (''api_key'', VStr ''foo'')] = Inr w2"
    by (simp add: DallEAPIWrapper_def)
  have q2: "map_of [(''model'', VStr ''dall-e-2''), (''quality'', VStr ''hd''),
      (''api_key'', VStr ''foo'')] ''quality'' = Some (VStr ''hd'')"
    by simp
  obtain w3 where b3: "DallEAPIWrapper test_defaults None
          [(''model'', VStr ''dall-e-3''), (''quality'', VStr ''hd''), (''api_key'', VStr ''foo'')] = Inr w3"
    by (simp add: DallEAPIWrapper_def)
  have q3: "map_of [(''model'', VStr ''dall-e-3''), (''quality'', VStr ''hd''),
      (''api_key'', VStr ''foo'')] ''quality'' = Some (VStr ''hd'')"
    by simp
  from quality_only_for_dalle3 [OF b2 q2, of "''a cat''"]
  have "map_of (request_args w2 ''a cat'') ''quality'' = None \<and> model_name w2 = VStr ''dall-e-2''"
    by simp
  moreover from quality_only_for_dalle3 [OF b3 q3, of "''a dog''"]
  have "map_of (request_args w3 ''a dog'') ''quality'' = Some (VStr ''hd'') \<and>
        model_name w3 = VStr ''dall-e-3''"
    by simp
  ultimately show ?thesis
    using b2 b3 by simp
qed

text \<open>
  C6. A map whose \<^verbatim>\<open>extractorOptions\<close> is a map with both \<^verbatim>\<open>extractionPrompt\<close> and
  \<^verbatim>\<open>userPrompt\<close>: \<^verbatim>\<open>_prepare_scrape_options\<close> removes \<^verbatim>\<open>extractorOptions\<close>, the
  top-level \<^verbatim>\<open>prompt\<close> is the value of \<^verbatim>\<open>userPrompt\<close>, and \<^verbatim>\<open>schema\<close> is the value
  of \<^verbatim>\<open>extractionSchema\<close> when that is present (and is left as it was otherwise).
\<close>

theorem extractor_user_prompt_wins:
  assumes ex: "map_of (cells s p) ''extractorOptions'' = Some (VDict e)"
    and ep: "map_of (cells s e) ''extractionPrompt'' = Some a"
    and up: "map_of (cells s e) ''userPrompt'' = Some u"
  shows "\<exists>s'. prepare_scrape_options s (VDict p) = Inr (VDict p, s') \<and>
           map_of (cells s' p) ''extractorOptions'' = None \<and>
           map_of (cells s' p) ''prompt'' = Some u \<and>
           map_of (cells s' p) ''schema'' =
             (case map_of (cells s e) ''extractionSchema'' of
                Some v \<Rightarrow> Some v
              | None \<Rightarrow> map_of (cells s p) ''schema'')"
proof -
  from ex have "\<forall>v. map_of (cells s p) ''extractorOptions'' = Some v \<longrightarrow> is_dict v"
    by simp
  from scrape_options_dict_items [OF this] obtain s' fs where
    run: "scrape_options_dict s p = Inr (VDict p, s')"
    and items: "\<And>k. map_of (cells s' p) k = scrape_item fs s p k"
    by blast
  have "map_of (cells s' p) ''extractorOptions'' = None"
    by (simp add: items scrape_item_def)
  moreover have "map_of (cells s' p) ''prompt'' = Some u"
    by (simp add: items scrape_item_def flag_names_def flag_table_def first_of_def
        extractor_item_def ex up)
  moreover have "map_of (cells s' p) ''schema'' =
             (case map_of (cells s e) ''extractionSchema'' of
                Some v \<Rightarrow> Some v
              | None \<Rightarrow> map_of (cells s p) ''schema'')"
    by (simp add: items scrape_item_def flag_names_def flag_table_def first_of_def
        extractor_item_def ex)
  ultimately show ?thesis
    using run by simp
qed

text \<open>
  Both prompts given: the user prompt is the one kept.
\<close>

theorem extractor_user_prompt_wins_witness:
  "\<exists>s'. prepare_scrape_options both_prompts (VDict 0) = Inr (VDict 0, s') \<and>
      map_of (cells s' 0) ''extractorOptions'' = None \<and>
      map_of (cells s' 0) ''prompt'' = Some (VStr ''new prompt'') \<and>
      map_of (cells s' 0) ''schema'' = Some (VStr ''S'')"
  using extractor_user_prompt_wins [of both_prompts 0 1 "VStr ''old prompt''" "VStr ''new prompt''"]
  by (simp add: both_prompts_def store_of_def)

text \<open>
  C7. A keyword that the builder does not recognize, given with credentials available:
  the construction succeeds, the Extension Map \<^verbatim>\<open>model_kwargs\<close> holds the keyword with its
  value, and every item of the Extension Map is an argument of the outgoing call.
\<close>

theorem unrecognized_keyword_kept:
  assumes unknown: "k \<notin> set recognized"
    and given: "map_of kwargs k = Some v"
    and creds: "map_of kwargs ''api_key'' \<noteq> None \<or> env \<noteq> None"
  shows "\<exists>w. DallEAPIWrapper dflt env kwargs = Inr w \<and>
           map_of (model_kwargs w) k = Some v \<and>
           set (model_kwargs w) \<subseteq> set (request_args w prompt)"
proof -
  from creds obtain w where built: "DallEAPIWrapper dflt env kwargs = Inr w"
    by (auto simp: DallEAPIWrapper_def)
  from model_kwargs_item [OF built, of k] unknown given
  have "map_of (model_kwargs w) k = Some v"
    by simp
  moreover have "set (model_kwargs w) \<subseteq> set (request_args w prompt)"
    by (auto simp: request_args_def)
  ultimately show ?thesis
    using built by blast
qed

text \<open>
  The unit test: \<^verbatim>\<open>invalid_parameter="value"\<close> is the whole Extension Map.
\<close>

theorem unrecognized_keyword_kept_witness:
  "\<exists>w. DallEAPIWrapper test_defaults None
          [(''api_key'', VStr ''foo''), (''invalid_parameter'', VStr ''value'')] = Inr w \<and>
       model_kwargs w = [(''invalid_parameter'', VStr ''value'')] \<and>
       (''invalid_parameter'', VStr ''value'') \<in> set (request_args w ''a cat'')"
  using unrecognized_keyword_kept [of "''invalid_parameter''"
      "[(''api_key'', VStr ''foo''), (''invalid_parameter'', VStr ''value'')]" "VStr ''value''"
      None test_defaults "''a cat''"]
  by (auto simp: recognized_def DallEAPIWrapper_def)

text \<open>
  C8. For a wrapper whose delimiter is the string \<open>sep\<close>, configured by the keyword
  \<^verbatim>\<open>separator\<close> or the comma by default, and a collaborator that answers the URLs
  \<open>urls\<close>: \<^verbatim>\<open>run\<close> returns the URLs joined by \<open>sep\<close> in the order of the answer, and the
  marker \<^verbatim>\<open>No image was generated\<close> when there is no URL.
\<close>

theorem run_joins_urls:
  assumes built: "DallEAPIWrapper dflt env kwargs = Inr w"
    and configured:
      "(case map_of kwargs ''separator'' of None \<Rightarrow> VStr '','' | Some v \<Rightarrow> v) = VStr sep"
    and answer: "generate (request_args w prompt) = Inr urls"
  shows "run generate w prompt =
           Inr (if urls = [] then ''No image was generated'' else join sep urls)"
proof -
  from built configured have "separator w = VStr sep"
    by (auto simp: DallEAPIWrapper_def split: if_splits)
  with answer show ?thesis
    by (simp add: run_def and_then_def)
qed

text \<open>
  The unit test with \<^verbatim>\<open>n=2\<close> and the separator \<^verbatim>\<open>|\<close>, against the fake client of the
  tests: two URLs, joined in order.
\<close>

theorem run_joins_urls_witness:
  "\<exists>w. DallEAPIWrapper test_defaults None
          [(''n'', VInt 2), (''separator'', VStr ''|''), (''api_key'', VStr ''foo'')] = Inr w \<and>
       run fake_generate w ''two cats playing'' =
         Inr ''https://example.com/image_0.png|https://example.com/image_1.png''"
proof -
  obtain w where built: "DallEAPIWrapper test_defaults None
          [(''n'', VInt 2), (''separator'', VStr ''|''), (''api_key'', VStr ''foo'')] = Inr w"
    by (simp add: DallEAPIWrapper_def)
  then have n: "num_images w = VInt 2"
    by (auto simp: DallEAPIWrapper_def)
  have configured: "(case map_of [(''n'', VInt 2), (''separator'', VStr ''|''),
       (''api_key'', VStr ''foo'')] ''separator'' of None \<Rightarrow> VStr '','' | Some v \<Rightarrow> v) = VStr ''|''"
    by simp
  have two: "[0..<2] = [0, Suc 0]"
    by (simp add: upt_rec numeral_2_eq_2)
  have lk: "map_of (request_args w ''two cats playing'') ''n'' = Some (VInt 2)"
    by (simp add: request_args_def n)
  have d: "decimal 0 = ''0''" "decimal (Suc 0) = ''1''"
    by (simp_all add: decimal.simps)
  have answer: "fake_generate (request_args w ''two cats playing'') =
      Inr [''https://example.com/image_0.png'', ''https://example.com/image_1.png'']"
    by (simp add: fake_generate_def lk two d)
  have "run fake_generate w ''two cats playing'' =
         Inr ''https://example.com/image_0.png|https://example.com/image_1.png''"
    using run_joins_urls [of test_defaults None _ w "''|''" fake_generate "''two cats playing''",
        OF built configured answer]
    by simp
  with built show ?thesis
    by simp
qed

text \<open>
  C9. A loader in search mode whose parameters contain the key \<^verbatim>\<open>query\<close>:
  \<^verbatim>\<open>lazy_load\<close> raises a TypeError, whatever the client is, and the log of remote calls
  is empty: the search operation is not reached.
\<close>

theorem search_query_duplicate_keyword:
  assumes "mode self = ''search''"
    and "dict_contains s (params self) ''query''"
  shows "lazy_load str_of self s = (Inl TypeError, [])"
proof -
  from assms(2) have "''query'' \<in> fst ` set (cells s (params self))"
    by (simp add: dict_contains_def map_of_eq_None_iff)
  then have "call_kwargs [(''query'', dict_get s (params self) ''query'' VNone)]
               (cells s (params self)) = Inl TypeError"
    by (simp add: call_kwargs_def)
  with assms(1) show ?thesis
    by (simp add: lazy_load_def fetch_def and_then_def)
qed

text \<open>
  The parameters \<^verbatim>\<open>{"query": "firecrawl", "limit": 5}\<close> in search mode.
\<close>

theorem search_query_duplicate_keyword_witness:
  "mode search_loader = ''search'' \<and> dict_contains query_store (params search_loader) ''query'' \<and>
   lazy_load no_text search_loader query_store = (Inl TypeError, [])"
proof -
  have m: "mode search_loader = ''search''"
    by (simp add: search_loader_def)
  have q: "dict_contains query_store (params search_loader) ''query''"
    by (simp add: search_loader_def query_store_def store_of_def dict_contains_def)
  from m q search_query_duplicate_keyword [OF m q, of no_text] show ?thesis
    by simp
qed

text \<open>
  C10. A loader in crawl mode with a URL, when the normalisation of the copied parameters
  succeeds and the client answers the crawl call with a mapping that has no key
  \<^verbatim>\<open>data\<close>: \<^verbatim>\<open>lazy_load\<close> raises nothing and yields no document, after the one
  remote call.
\<close>

theorem crawl_without_data_yields_nothing:
  assumes m: "mode self = ''crawl''" and u: "url self \<noteq> []"
    and norm: "prepare_crawler_options (snd (dict_copy s (params self)))
                 (fst (dict_copy s (params self))) = Inr (opts, s2)"
    and call: "firecrawl self (CrawlUrl (url self) (cells s2 (fst (dict_copy s (params self))))) s2
                 = Inr (VDict r, s3)"
    and nodata: "\<not> dict_contains s3 r ''data''"
  shows "lazy_load str_of self s =
           (Inr ([], s3), [CrawlUrl (url self) (cells s2 (fst (dict_copy s (params self))))])"
proof -
  obtain c s1 where copy: "dict_copy s (params self) = (c, s1)"
    by (cases "dict_copy s (params self)")
  from norm copy have n1: "prepare_crawler_options s1 c = Inr (opts, s2)"
    by simp
  then have opts: "opts = VDict c"
    by (rule prepare_crawler_options_result)
  from call copy have c1: "firecrawl self (CrawlUrl (url self) (cells s2 c)) s2 = Inr (VDict r, s3)"
    by simp
  from nodata have d: "dict_get s3 r ''data'' (VList []) = VList []"
    by (simp add: dict_contains_def dict_get_def)
  have "fetch str_of self s = (Inr (VList [], s3), [CrawlUrl (url self) (cells s2 c)])"
    using m u by (simp add: fetch_def copy n1 opts and_then_def invoke_def c1 d)
  then show ?thesis
    by (simp add: lazy_load_def and_then_def copy)
qed

text \<open>
  The crawl of the map with the six legacy keys, by a client that answers an empty mapping.
\<close>

theorem crawl_without_data_yields_nothing_witness:
  "\<exists>kw s3. lazy_load no_text crawl_loader six_legacy = (Inr ([], s3), [CrawlUrl ''https://example.com'' kw])"
proof -
  have m: "mode crawl_loader = ''crawl''" and u: "url crawl_loader \<noteq> []"
    by (simp_all add: crawl_loader_def)
  have "map_of (cells (snd (dict_copy six_legacy (params crawl_loader))) (fst (dict_copy six_legacy (params crawl_loader)))) ''pageOptions'' = None"
    by (simp add: dict_copy_def six_legacy_def store_of_def crawl_loader_def)
  from crawler_options_items [OF this] obtain s2 where
    norm: "prepare_crawler_options (snd (dict_copy six_legacy (params crawl_loader)))
                 (fst (dict_copy six_legacy (params crawl_loader))) = Inr (VDict (fst (dict_copy six_legacy (params crawl_loader))), s2)"
    by blast
  obtain r s3 where call: "firecrawl crawl_loader (CrawlUrl (url crawl_loader) (cells s2 (fst (dict_copy six_legacy (params crawl_loader))))) s2
                 = Inr (VDict r, s3)" and nodata: "\<not> dict_contains s3 r ''data''"
    by (simp add: crawl_loader_def empty_client_def dict_new_def dict_contains_def)
  from crawl_without_data_yields_nothing [OF m u norm call nodata, of no_text] show ?thesis
    by (simp add: crawl_loader_def)
qed

end
